theory Spec2Isabelle
  imports Complex_Main "HOL-Library.Char_ord" "HOL-Library.List_Lexorder"
begin

section \<open>Data model of the inventory store (database.ts)\<close>

text \<open>
  The TypeScript interfaces \<^verbatim>\<open>Category\<close>, \<^verbatim>\<open>Item\<close>, \<^verbatim>\<open>Customer\<close>, \<^verbatim>\<open>Invoice\<close> and
  \<^verbatim>\<open>InvoiceItem\<close> become records. Record fields share one name space, so every field
  carries a short prefix of its table. Row ids are SQLite rowids (\<open>nat\<close>); every other
  JavaScript \<^verbatim>\<open>number\<close> is a \<open>real\<close> (NaN, infinities and rounding of doubles are not
  represented). A nullable TEXT column is a \<open>string option\<close>, \<open>None\<close> being NULL.
  The column \<^verbatim>\<open>created_at\<close> defaults to CURRENT_TIMESTAMP: the clock reading is an
  argument \<open>now\<close> of every operation that inserts a row.
\<close>

type_synonym number = real
type_synonym timestamp = string

record Category =
  c_id :: nat
  c_name :: string
  c_description :: "string option"
  c_created_at :: timestamp

record Item =
  i_id :: nat
  i_name :: string
  i_category_id :: nat
  i_price :: number
  i_quantity :: number
  i_description :: "string option"
  i_created_at :: timestamp

record Customer =
  cu_id :: nat
  cu_name :: string
  cu_phone :: string
  cu_email :: "string option"
  cu_created_at :: timestamp

record Invoice =
  inv_id :: nat
  inv_invoice_number :: string
  inv_customer_id :: nat
  inv_invoice_date :: string
  inv_subtotal :: number
  inv_vat_amount :: number
  inv_total_amount :: number
  inv_created_at :: timestamp

record InvoiceItem =
  ii_id :: nat
  ii_invoice_id :: nat
  ii_item_id :: nat
  ii_quantity :: number
  ii_unit_price :: number
  ii_extended_amount :: number

text \<open>
  The file \<^verbatim>\<open>inventory.db\<close>: the five tables in rowid order, and for each table the
  counter that AUTOINCREMENT keeps in \<^verbatim>\<open>sqlite_sequence\<close> (the largest rowid ever
  allocated for the table). A table that \<^verbatim>\<open>CREATE TABLE IF NOT EXISTS\<close> has not created yet is the
  empty table with counter 0. Foreign keys are declared in the schema but the source
  never switches their enforcement on, so they constrain nothing.
\<close>

record database =
  categories :: "Category list"
  items :: "Item list"
  customers :: "Customer list"
  invoices :: "Invoice list"
  invoice_items :: "InvoiceItem list"
  seq_categories :: nat
  seq_items :: nat
  seq_customers :: nat
  seq_invoices :: nat
  seq_invoice_items :: nat

text \<open>
  The singleton \<^verbatim>\<open>DatabaseService\<close>: \<open>opened\<close> says that the private field
  \<^verbatim>\<open>db\<close> is not null, \<open>store\<close> is the content of the database file, which outlives
  the handle.
\<close>

record service =
  opened :: bool
  store :: database

datatype error = Error string | SQLiteError string

definition not_initialized :: error where
  "not_initialized = Error ''Database not initialized''"

definition empty_database :: database where
  "empty_database = \<lparr>categories = [], items = [], customers = [], invoices = [],
     invoice_items = [], seq_categories = 0, seq_items = 0, seq_customers = 0,
     seq_invoices = 0, seq_invoice_items = 0\<rparr>"

text \<open>
  AUTOINCREMENT: one more than the largest rowid the table holds or that was ever
  allocated for it.
\<close>

definition next_rowid :: "nat \<Rightarrow> nat list \<Rightarrow> nat" where
  "next_rowid sq ids = Suc (max sq (foldr max ids 0))"

text \<open>The JavaScript idiom \<^verbatim>\<open>x || ''\<close> on an optional string.\<close>

definition or_empty :: "string option \<Rightarrow> string" where
  "or_empty x = (case x of None \<Rightarrow> [] | Some v \<Rightarrow> (if v = [] then [] else v))"

text \<open>
  A service call either throws (\<open>Inl\<close>) or returns (\<open>Inr\<close>), and leaves a service
  state behind in both cases. \<open>await\<close> sequences two calls as the source's
  \<^verbatim>\<open>await\<close> statements do: a throw skips the rest.
\<close>

type_synonym 'a call = "service \<Rightarrow> (error + 'a) \<times> service"

definition await :: "'a call \<Rightarrow> ('a \<Rightarrow> 'b call) \<Rightarrow> 'b call" where
  "await m f s = (case m s of (Inl e, s') \<Rightarrow> (Inl e, s') | (Inr a, s') \<Rightarrow> f a s')"

section \<open>Schema creation and seed data\<close>

definition createTables :: "unit call" where
  "createTables s = (if \<not> opened s then (Inl not_initialized, s) else (Inr (), s))"

text \<open>
  \<^verbatim>\<open>INSERT OR IGNORE INTO categories (name, description)\<close>: when a row of that name
  exists the UNIQUE constraint on \<^verbatim>\<open>name\<close> makes SQLite skip the row. The rowid was
  allocated before the constraint was checked, so the counter in \<^verbatim>\<open>sqlite_sequence\<close>
  advances all the same and the allocated rowid is never used.
\<close>

definition insert_or_ignore_category :: "timestamp \<Rightarrow> string \<Rightarrow> string \<Rightarrow> database \<Rightarrow> database" where
  "insert_or_ignore_category now name description d =
     (let rid = next_rowid (seq_categories d) (map c_id (categories d))
      in if name \<in> set (map c_name (categories d)) then d\<lparr>seq_categories := rid\<rparr>
         else d\<lparr>categories := categories d @
                   [\<lparr>c_id = rid, c_name = name, c_description = Some description,
                     c_created_at = now\<rparr>],
                 seq_categories := rid\<rparr>)"

text \<open>The four statements inside the \<^verbatim>\<open>try\<close> block of \<^verbatim>\<open>insertDefaultData\<close>, in order.\<close>

definition insert_default_rows :: "timestamp \<Rightarrow> database \<Rightarrow> database" where
  "insert_default_rows now d =
     insert_or_ignore_category now ''Home & Garden'' ''Home improvement and garden supplies''
      (insert_or_ignore_category now ''Books'' ''Books and educational materials''
        (insert_or_ignore_category now ''Clothing'' ''Apparel and fashion items''
          (insert_or_ignore_category now ''Electronics'' ''Electronic devices and accessories''
            d)))"

definition insertDefaultData :: "timestamp \<Rightarrow> unit call" where
  "insertDefaultData now s =
     (if \<not> opened s then (Inl not_initialized, s)
      else (Inr (), s\<lparr>store := insert_default_rows now (store s)\<rparr>))"

definition initDatabase :: "timestamp \<Rightarrow> unit call" where
  "initDatabase now s =
     await createTables (\<lambda>_. insertDefaultData now) (s\<lparr>opened := True\<rparr>)"

section \<open>Category operations\<close>

definition getCategories :: "(Category list) call" where
  "getCategories s =
     (if \<not> opened s then (Inl not_initialized, s)
      else (Inr (sort_key c_name (categories (store s))), s))"

definition addCategory :: "timestamp \<Rightarrow> string \<Rightarrow> string option \<Rightarrow> nat call" where
  "addCategory now name description s =
     (if \<not> opened s then (Inl not_initialized, s)
      else if name \<in> set (map c_name (categories (store s)))
      then (Inl (SQLiteError ''UNIQUE constraint failed: categories.name''), s)
      else (let d = store s;
                rid = next_rowid (seq_categories d) (map c_id (categories d))
            in (Inr rid, s\<lparr>store := d\<lparr>categories := categories d @
                   [\<lparr>c_id = rid, c_name = name, c_description = Some (or_empty description),
                     c_created_at = now\<rparr>],
                 seq_categories := rid\<rparr>\<rparr>)))"

definition updateCategory :: "nat \<Rightarrow> string \<Rightarrow> string option \<Rightarrow> unit call" where
  "updateCategory cid name description s =
     (if \<not> opened s then (Inl not_initialized, s)
      else if (\<exists>r \<in> set (categories (store s)). c_id r = cid) \<and>
              (\<exists>r \<in> set (categories (store s)). c_id r \<noteq> cid \<and> c_name r = name)
      then (Inl (SQLiteError ''UNIQUE constraint failed: categories.name''), s)
      else (Inr (), s\<lparr>store := (store s)\<lparr>categories :=
              map (\<lambda>r. if c_id r = cid
                        then r\<lparr>c_name := name, c_description := Some (or_empty description)\<rparr>
                        else r) (categories (store s))\<rparr>\<rparr>))"

definition deleteCategory :: "nat \<Rightarrow> unit call" where
  "deleteCategory cid s =
     (if \<not> opened s then (Inl not_initialized, s)
      else (Inr (), s\<lparr>store := (store s)\<lparr>categories :=
              filter (\<lambda>r. c_id r \<noteq> cid) (categories (store s))\<rparr>\<rparr>))"

section \<open>Item operations\<close>

definition getItems :: "(Item list) call" where
  "getItems s =
     (if \<not> opened s then (Inl not_initialized, s)
      else (Inr (sort_key i_name (items (store s))), s))"

definition getItemsByCategory :: "nat \<Rightarrow> (Item list) call" where
  "getItemsByCategory categoryId s =
     (if \<not> opened s then (Inl not_initialized, s)
      else (Inr (sort_key i_name (filter (\<lambda>r. i_category_id r = categoryId) (items (store s)))), s))"

definition addItem :: "timestamp \<Rightarrow> string \<Rightarrow> nat \<Rightarrow> number \<Rightarrow> number \<Rightarrow> string option \<Rightarrow> nat call" where
  "addItem now name categoryId price quantity description s =
     (if \<not> opened s then (Inl not_initialized, s)
      else (let d = store s;
                rid = next_rowid (seq_items d) (map i_id (items d))
            in (Inr rid, s\<lparr>store := d\<lparr>items := items d @
                   [\<lparr>i_id = rid, i_name = name, i_category_id = categoryId, i_price = price,
                     i_quantity = quantity, i_description = Some (or_empty description),
                     i_created_at = now\<rparr>],
                 seq_items := rid\<rparr>\<rparr>)))"

definition updateItem :: "nat \<Rightarrow> string \<Rightarrow> nat \<Rightarrow> number \<Rightarrow> number \<Rightarrow> string option \<Rightarrow> unit call" where
  "updateItem iid name categoryId price quantity description s =
     (if \<not> opened s then (Inl not_initialized, s)
      else (Inr (), s\<lparr>store := (store s)\<lparr>items :=
              map (\<lambda>r. if i_id r = iid
                        then r\<lparr>i_name := name, i_category_id := categoryId, i_price := price,
                               i_quantity := quantity,
                               i_description := Some (or_empty description)\<rparr>
                        else r) (items (store s))\<rparr>\<rparr>))"

definition updateItemQuantity :: "nat \<Rightarrow> number \<Rightarrow> unit call" where
  "updateItemQuantity iid quantity s =
     (if \<not> opened s then (Inl not_initialized, s)
      else (Inr (), s\<lparr>store := (store s)\<lparr>items :=
              map (\<lambda>r. if i_id r = iid then r\<lparr>i_quantity := quantity\<rparr> else r)
                  (items (store s))\<rparr>\<rparr>))"

definition deleteItem :: "nat \<Rightarrow> unit call" where
  "deleteItem iid s =
     (if \<not> opened s then (Inl not_initialized, s)
      else (Inr (), s\<lparr>store := (store s)\<lparr>items :=
              filter (\<lambda>r. i_id r \<noteq> iid) (items (store s))\<rparr>\<rparr>))"

section \<open>Customer operations\<close>

definition getCustomers :: "(Customer list) call" where
  "getCustomers s =
     (if \<not> opened s then (Inl not_initialized, s)
      else (Inr (sort_key cu_name (customers (store s))), s))"

definition addCustomer :: "timestamp \<Rightarrow> string \<Rightarrow> string \<Rightarrow> string option \<Rightarrow> nat call" where
  "addCustomer now name phone email s =
     (if \<not> opened s then (Inl not_initialized, s)
      else (let d = store s;
                rid = next_rowid (seq_customers d) (map cu_id (customers d))
            in (Inr rid, s\<lparr>store := d\<lparr>customers := customers d @
                   [\<lparr>cu_id = rid, cu_name = name, cu_phone = phone,
                     cu_email = Some (or_empty email), cu_created_at = now\<rparr>],
                 seq_customers := rid\<rparr>\<rparr>)))"

definition updateCustomer :: "nat \<Rightarrow> string \<Rightarrow> string \<Rightarrow> string option \<Rightarrow> unit call" where
  "updateCustomer cid name phone email s =
     (if \<not> opened s then (Inl not_initialized, s)
      else (Inr (), s\<lparr>store := (store s)\<lparr>customers :=
              map (\<lambda>r. if cu_id r = cid
                        then r\<lparr>cu_name := name, cu_phone := phone,
                               cu_email := Some (or_empty email)\<rparr>
                        else r) (customers (store s))\<rparr>\<rparr>))"

definition deleteCustomer :: "nat \<Rightarrow> unit call" where
  "deleteCustomer cid s =
     (if \<not> opened s then (Inl not_initialized, s)
      else (Inr (), s\<lparr>store := (store s)\<lparr>customers :=
              filter (\<lambda>r. cu_id r \<noteq> cid) (customers (store s))\<rparr>\<rparr>))"

section \<open>Invoice operations\<close>

text \<open>
  \<^verbatim>\<open>ORDER BY created_at DESC\<close>: newest first, rows of one timestamp in rowid
  order (the stable sort runs on the reversed table and its result is reversed).
\<close>

definition getInvoices :: "(Invoice list) call" where
  "getInvoices s =
     (if \<not> opened s then (Inl not_initialized, s)
      else (Inr (rev (sort_key inv_created_at (rev (invoices (store s))))), s))"

text \<open>\<^verbatim>\<open>String(n)\<close> on a natural number and \<^verbatim>\<open>padStart\<close> with a one-character pad.\<close>

definition digit_char :: "nat \<Rightarrow> char" where
  "digit_char d = ''0123456789'' ! d"

fun String_of :: "nat \<Rightarrow> string" where
  "String_of n = (if n < 10 then [digit_char n]
                  else String_of (n div 10) @ [digit_char (n mod 10)])"

declare String_of.simps [simp del]

definition padStart :: "nat \<Rightarrow> char \<Rightarrow> string \<Rightarrow> string" where
  "padStart targetLength c str = replicate (targetLength - length str) c @ str"

definition generateInvoiceNumber :: "string call" where
  "generateInvoiceNumber s =
     (if \<not> opened s then (Inl not_initialized, s)
      else (let count = length (invoices (store s))
            in (Inr (''INV-'' @ padStart 6 (CHR ''0'') (String_of (count + 1))), s)))"

definition addInvoice ::
  "timestamp \<Rightarrow> string \<Rightarrow> nat \<Rightarrow> string \<Rightarrow> number \<Rightarrow> number \<Rightarrow> number \<Rightarrow> nat call" where
  "addInvoice now invoiceNumber customerId invoiceDate subtotal vatAmount totalAmount s =
     (if \<not> opened s then (Inl not_initialized, s)
      else if invoiceNumber \<in> set (map inv_invoice_number (invoices (store s)))
      then (Inl (SQLiteError ''UNIQUE constraint failed: invoices.invoice_number''), s)
      else (let d = store s;
                rid = next_rowid (seq_invoices d) (map inv_id (invoices d))
            in (Inr rid, s\<lparr>store := d\<lparr>invoices := invoices d @
                   [\<lparr>inv_id = rid, inv_invoice_number = invoiceNumber,
                     inv_customer_id = customerId, inv_invoice_date = invoiceDate,
                     inv_subtotal = subtotal, inv_vat_amount = vatAmount,
                     inv_total_amount = totalAmount, inv_created_at = now\<rparr>],
                 seq_invoices := rid\<rparr>\<rparr>)))"

definition addInvoiceItem :: "nat \<Rightarrow> nat \<Rightarrow> number \<Rightarrow> number \<Rightarrow> number \<Rightarrow> unit call" where
  "addInvoiceItem invoiceId itemId quantity unitPrice extendedAmount s =
     (if \<not> opened s then (Inl not_initialized, s)
      else (let d = store s;
                rid = next_rowid (seq_invoice_items d) (map ii_id (invoice_items d))
            in (Inr (), s\<lparr>store := d\<lparr>invoice_items := invoice_items d @
                   [\<lparr>ii_id = rid, ii_invoice_id = invoiceId, ii_item_id = itemId,
                     ii_quantity = quantity, ii_unit_price = unitPrice,
                     ii_extended_amount = extendedAmount\<rparr>],
                 seq_invoice_items := rid\<rparr>\<rparr>)))"

definition updateInvoice ::
  "nat \<Rightarrow> nat \<Rightarrow> string \<Rightarrow> number \<Rightarrow> number \<Rightarrow> number \<Rightarrow> unit call" where
  "updateInvoice vid customerId invoiceDate subtotal vatAmount totalAmount s =
     (if \<not> opened s then (Inl not_initialized, s)
      else (Inr (), s\<lparr>store := (store s)\<lparr>invoices :=
              map (\<lambda>r. if inv_id r = vid
                        then r\<lparr>inv_customer_id := customerId, inv_invoice_date := invoiceDate,
                               inv_subtotal := subtotal, inv_vat_amount := vatAmount,
                               inv_total_amount := totalAmount\<rparr>
                        else r) (invoices (store s))\<rparr>\<rparr>))"

definition deleteInvoiceItems :: "nat \<Rightarrow> unit call" where
  "deleteInvoiceItems invoiceId s =
     (if \<not> opened s then (Inl not_initialized, s)
      else (Inr (), s\<lparr>store := (store s)\<lparr>invoice_items :=
              filter (\<lambda>r. ii_invoice_id r \<noteq> invoiceId) (invoice_items (store s))\<rparr>\<rparr>))"

definition getInvoiceItems :: "nat \<Rightarrow> (InvoiceItem list) call" where
  "getInvoiceItems invoiceId s =
     (if \<not> opened s then (Inl not_initialized, s)
      else (Inr (filter (\<lambda>r. ii_invoice_id r = invoiceId) (invoice_items (store s))), s))"

section \<open>Dashboard statistics\<close>

record stats =
  totalItems :: nat
  totalInvoices :: nat
  totalCustomers :: nat

definition getDashboardStats :: "stats call" where
  "getDashboardStats s =
     (if \<not> opened s then (Inl not_initialized, s)
      else (Inr \<lparr>totalItems = length (items (store s)),
                 totalInvoices = length (invoices (store s)),
                 totalCustomers = length (customers (store s))\<rparr>, s))"

section \<open>The invoice form (CreateInvoiceScreen)\<close>

text \<open>
  The component state that the handlers read. \<open>sc_invoiceId\<close> is the route parameter
  (\<open>None\<close> when absent), \<open>sc_items\<close> the item list fetched by \<^verbatim>\<open>loadData\<close> when the
  screen was mounted, \<open>fd_invoice_date\<close> the date already rendered as
  \<^verbatim>\<open>toISOString().split('T')[0]\<close>. The two text fields of the line dialog are kept as
  the value of \<^verbatim>\<open>Number(text)\<close>, \<open>None\<close> being NaN. \<open>sc_editingItemIndex\<close> is an
  \<open>int\<close> since the source uses \<open>-1\<close> for "no line is being edited".
\<close>

record InvoiceItemData =
  d_id :: "nat option"
  d_item_id :: nat
  d_item_name :: string
  d_quantity :: number
  d_unit_price :: number
  d_extended_amount :: number

record FormData =
  fd_customer_id :: nat
  fd_invoice_date :: string
  fd_items :: "InvoiceItemData list"

record screen =
  sc_invoiceId :: "nat option"
  sc_items :: "Item list"
  sc_invoiceNumber :: string
  sc_formData :: FormData
  sc_selectedItemId :: nat
  sc_itemQuantity :: "number option"
  sc_itemPrice :: "number option"
  sc_editingItemIndex :: int

text \<open>
  The component's own \<^verbatim>\<open>generateInvoiceNumber\<close>, run when the screen is mounted
  without an invoice id: it stores the number in the state and swallows a failure.
\<close>

definition screen_generateInvoiceNumber :: "screen \<Rightarrow> service \<Rightarrow> screen \<times> service" where
  "screen_generateInvoiceNumber sc s =
     (case generateInvoiceNumber s of
        (Inr number, s') \<Rightarrow> (sc\<lparr>sc_invoiceNumber := number\<rparr>, s')
      | (Inl e, s') \<Rightarrow> (sc, s'))"

definition VAT_RATE :: number where
  "VAT_RATE = 0.15"

text \<open>What a handler leaves behind for the user: an error toast, a success toast, or nothing.\<close>

datatype toast = ShowError string | ShowSuccess string | Silent

text \<open>
  \<^verbatim>\<open>addOrUpdateItem\<close>: the guards in source order, then the new line is stored at the
  edited index or appended. The edited index is the index of a rendered line, so it is
  below the length of the list; an index beyond it would leave holes in the JavaScript
  array, which a list cannot hold, and the model leaves the lines unchanged there.
\<close>

definition addOrUpdateItem :: "screen \<Rightarrow> toast \<times> screen" where
  "addOrUpdateItem sc =
     (if sc_selectedItemId sc = 0 then (ShowError ''Please select an item'', sc)
      else case sc_itemQuantity sc of
        None \<Rightarrow> (ShowError ''Please enter a valid quantity'', sc)
      | Some quantity \<Rightarrow>
         (if quantity \<le> 0 then (ShowError ''Please enter a valid quantity'', sc)
          else case sc_itemPrice sc of
            None \<Rightarrow> (ShowError ''Please enter a valid price'', sc)
          | Some price \<Rightarrow>
             (if price \<le> 0 then (ShowError ''Please enter a valid price'', sc)
              else case find (\<lambda>i. i_id i = sc_selectedItemId sc) (sc_items sc) of
                None \<Rightarrow> (Silent, sc)
              | Some item \<Rightarrow>
                 (let newItem = \<lparr>d_id = None, d_item_id = sc_selectedItemId sc,
                                  d_item_name = i_name item, d_quantity = quantity,
                                  d_unit_price = price,
                                  d_extended_amount = quantity * price\<rparr>;
                      prev = sc_formData sc;
                      newItems =
                        (if 0 \<le> sc_editingItemIndex sc
                         then (if nat (sc_editingItemIndex sc) < length (fd_items prev)
                               then (fd_items prev)[nat (sc_editingItemIndex sc) := newItem]
                               else fd_items prev)
                         else fd_items prev @ [newItem])
                  in (Silent, sc\<lparr>sc_formData := prev\<lparr>fd_items := newItems\<rparr>,
                                  sc_editingItemIndex := -1, sc_selectedItemId := 0,
                                  sc_itemQuantity := Some 1, sc_itemPrice := Some 0\<rparr>)))))"

record totals =
  subtotal :: number
  vatAmount :: number
  total :: number

definition calculateTotals :: "screen \<Rightarrow> totals" where
  "calculateTotals sc =
     (let subtotal = foldl (\<lambda>sum item. sum + d_extended_amount item) 0
                       (fd_items (sc_formData sc));
          vatAmount = subtotal * VAT_RATE;
          total = subtotal + vatAmount
      in \<lparr>subtotal = subtotal, vatAmount = vatAmount, total = total\<rparr>)"

text \<open>The two \<^verbatim>\<open>for ... of\<close> loops of \<^verbatim>\<open>handleSave\<close>, one per branch.\<close>

fun update_lines :: "nat \<Rightarrow> InvoiceItemData list \<Rightarrow> unit call" where
  "update_lines invoiceId [] s = (Inr (), s)"
| "update_lines invoiceId (item # rest) s =
     await (addInvoiceItem invoiceId (d_item_id item) (d_quantity item) (d_unit_price item)
              (d_extended_amount item))
           (\<lambda>_. update_lines invoiceId rest) s"

fun create_lines :: "Item list \<Rightarrow> nat \<Rightarrow> InvoiceItemData list \<Rightarrow> unit call" where
  "create_lines its newInvoiceId [] s = (Inr (), s)"
| "create_lines its newInvoiceId (item # rest) s =
     await (addInvoiceItem newInvoiceId (d_item_id item) (d_quantity item) (d_unit_price item)
              (d_extended_amount item))
       (\<lambda>_. await
          (case find (\<lambda>i. i_id i = d_item_id item) its of
             None \<Rightarrow> (\<lambda>s. (Inr (), s))
           | Some currentItem \<Rightarrow>
               updateItemQuantity (d_item_id item)
                 (max 0 (i_quantity currentItem - d_quantity item)))
          (\<lambda>_. create_lines its newInvoiceId rest)) s"

text \<open>
  The body of the \<^verbatim>\<open>try\<close> block. \<^verbatim>\<open>if (invoiceId)\<close> is false for an absent
  parameter and for 0.
\<close>

definition save_body :: "timestamp \<Rightarrow> screen \<Rightarrow> string call" where
  "save_body now sc =
     (let t = calculateTotals sc;
          formData = sc_formData sc
      in case sc_invoiceId sc of
           Some (Suc k) \<Rightarrow>
             await (updateInvoice (Suc k) (fd_customer_id formData) (fd_invoice_date formData)
                      (subtotal t) (vatAmount t) (total t))
               (\<lambda>_. await (deleteInvoiceItems (Suc k))
                 (\<lambda>_. await (update_lines (Suc k) (fd_items formData))
                   (\<lambda>_ s. (Inr ''Invoice updated successfully'', s))))
         | _ \<Rightarrow>
             await (addInvoice now (sc_invoiceNumber sc) (fd_customer_id formData)
                      (fd_invoice_date formData) (subtotal t) (vatAmount t) (total t))
               (\<lambda>newInvoiceId. await (create_lines (sc_items sc) newInvoiceId (fd_items formData))
                 (\<lambda>_ s. (Inr ''Invoice created successfully'', s))))"

definition handleSave :: "timestamp \<Rightarrow> screen \<Rightarrow> service \<Rightarrow> toast \<times> service" where
  "handleSave now sc s =
     (if fd_customer_id (sc_formData sc) = 0 then (ShowError ''Please select a customer'', s)
      else if fd_items (sc_formData sc) = [] then (ShowError ''Please add at least one item'', s)
      else case save_body now sc s of
             (Inr msg, s') \<Rightarrow> (ShowSuccess msg, s')
           | (Inl e, s') \<Rightarrow> (ShowError ''Failed to save invoice'', s'))"

section \<open>Sample states\<close>

text \<open>
  \<open>fresh_service\<close> is the service as \<^verbatim>\<open>new DatabaseService()\<close> leaves it on a
  device without a database file. \<open>shop\<close> is an initialised store with one category
  (the default Electronics, its description edited by the user),
  two items in stock (10 laptops, 2 cables) and one customer.
\<close>

definition fresh_service :: service where
  "fresh_service = \<lparr>opened = False, store = empty_database\<rparr>"

definition shop :: service where
  "shop = \<lparr>opened = True, store = \<lparr>
     categories = [\<lparr>c_id = 1, c_name = ''Electronics'',
                    c_description = Some ''Phones and laptops'',
                    c_created_at = ''2024-01-01 09:00:00''\<rparr>],
     items = [\<lparr>i_id = 1, i_name = ''Laptop'', i_category_id = 1, i_price = 1000,
               i_quantity = 10, i_description = Some [], i_created_at = ''2024-01-01 09:05:00''\<rparr>,
              \<lparr>i_id = 2, i_name = ''Cable'', i_category_id = 1, i_price = 5,
               i_quantity = 2, i_description = Some [], i_created_at = ''2024-01-01 09:06:00''\<rparr>],
     customers = [\<lparr>cu_id = 1, cu_name = ''Alice'', cu_phone = ''555-0100'',
                   cu_email = Some [], cu_created_at = ''2024-01-01 09:10:00''\<rparr>],
     invoices = [], invoice_items = [],
     seq_categories = 1, seq_items = 2, seq_customers = 1, seq_invoices = 0,
     seq_invoice_items = 0\<rparr>\<rparr>"

text \<open>
  \<open>sale_form\<close> is the invoice form over \<open>shop\<close> for a new invoice of three laptops;
  \<open>sold\<close> is the store after that invoice was saved; \<open>edit_form\<close> is the form
  opened on that invoice with the line changed to five laptops.
\<close>

definition laptop_line :: "number \<Rightarrow> InvoiceItemData" where
  "laptop_line n = \<lparr>d_id = None, d_item_id = 1, d_item_name = ''Laptop'', d_quantity = n,
     d_unit_price = 1000, d_extended_amount = n * 1000\<rparr>"

definition sale_form :: screen where
  "sale_form = \<lparr>sc_invoiceId = None, sc_items = items (store shop),
     sc_invoiceNumber = ''INV-000001'',
     sc_formData = \<lparr>fd_customer_id = 1, fd_invoice_date = ''2024-01-02'',
                     fd_items = [laptop_line 3]\<rparr>,
     sc_selectedItemId = 0, sc_itemQuantity = Some 1, sc_itemPrice = Some 0,
     sc_editingItemIndex = -1\<rparr>"

definition sold :: service where
  "sold = shop\<lparr>store := (store shop)\<lparr>
     items := [\<lparr>i_id = 1, i_name = ''Laptop'', i_category_id = 1, i_price = 1000,
               i_quantity = 7, i_description = Some [], i_created_at = ''2024-01-01 09:05:00''\<rparr>,
              \<lparr>i_id = 2, i_name = ''Cable'', i_category_id = 1, i_price = 5,
               i_quantity = 2, i_description = Some [], i_created_at = ''2024-01-01 09:06:00''\<rparr>],
     invoices := [\<lparr>inv_id = 1, inv_invoice_number = ''INV-000001'', inv_customer_id = 1,
                   inv_invoice_date = ''2024-01-02'', inv_subtotal = 3000, inv_vat_amount = 450,
                   inv_total_amount = 3450, inv_created_at = ''2024-01-02 12:00:00''\<rparr>],
     invoice_items := [\<lparr>ii_id = 1, ii_invoice_id = 1, ii_item_id = 1, ii_quantity = 3,
                        ii_unit_price = 1000, ii_extended_amount = 3000\<rparr>],
     seq_invoices := 1, seq_invoice_items := 1\<rparr>\<rparr>"

definition edit_form :: screen where
  "edit_form = \<lparr>sc_invoiceId = Some 1, sc_items = items (store sold),
     sc_invoiceNumber = ''INV-000001'',
     sc_formData = \<lparr>fd_customer_id = 1, fd_invoice_date = ''2024-01-03'',
                     fd_items = [laptop_line 5]\<rparr>,
     sc_selectedItemId = 0, sc_itemQuantity = Some 1, sc_itemPrice = Some 0,
     sc_editingItemIndex = -1\<rparr>"

section \<open>Notions used to state the properties\<close>

text \<open>
  The columns of an invoice line that the form supplies, on the side of the table and on
  the side of the form, and the lines that \<^verbatim>\<open>getInvoiceItems\<close> selects for an invoice.
\<close>

definition row_fields :: "InvoiceItem \<Rightarrow> nat \<times> number \<times> number \<times> number" where
  "row_fields r = (ii_item_id r, ii_quantity r, ii_unit_price r, ii_extended_amount r)"

definition line_fields :: "InvoiceItemData \<Rightarrow> nat \<times> number \<times> number \<times> number" where
  "line_fields l = (d_item_id l, d_quantity l, d_unit_price l, d_extended_amount l)"

definition lines_of :: "nat \<Rightarrow> service \<Rightarrow> (nat \<times> number \<times> number \<times> number) list" where
  "lines_of v s = map row_fields (filter (\<lambda>r. ii_invoice_id r = v) (invoice_items (store s)))"

text \<open>
  Which branch \<^verbatim>\<open>handleSave\<close> takes, and the id of the invoice row it writes: the
  route parameter when an invoice is edited, otherwise the rowid that the insert will be
  given.
\<close>

definition is_update :: "screen \<Rightarrow> bool" where
  "is_update sc = (case sc_invoiceId sc of Some (Suc k) \<Rightarrow> True | _ \<Rightarrow> False)"

definition saved_invoice_id :: "screen \<Rightarrow> service \<Rightarrow> nat" where
  "saved_invoice_id sc s =
     (case sc_invoiceId sc of
        Some (Suc k) \<Rightarrow> Suc k
      | _ \<Rightarrow> next_rowid (seq_invoices (store s)) (map inv_id (invoices (store s))))"



text \<open>
  \<open>double_form\<close> is the form over \<open>shop\<close> after the user added the laptop twice,
  once with quantity 3 and once with quantity 4 (\<^verbatim>\<open>addOrUpdateItem\<close> appends a line
  whether or not the item is already on the invoice).
\<close>

definition double_form :: screen where
  "double_form = sale_form\<lparr>sc_formData :=
     \<lparr>fd_customer_id = 1, fd_invoice_date = ''2024-01-02'',
      fd_items = [laptop_line 3, laptop_line 4]\<rparr>\<rparr>"

text \<open>
  \<open>pick_form\<close> is \<open>sale_form\<close> with the line dialog filled in for two cables at 5.
\<close>

definition pick_form :: screen where
  "pick_form = sale_form\<lparr>sc_selectedItemId := 2, sc_itemQuantity := Some 2,
     sc_itemPrice := Some 5\<rparr>"

text \<open>
  A run of invoice creations: for each form in turn the screen is mounted, which fetches
  the invoice number, and then saved.
\<close>

fun create_run :: "(timestamp \<times> screen) list \<Rightarrow> service \<Rightarrow> service" where
  "create_run [] s = s"
| "create_run ((now, sc) # rest) s =
     (case screen_generateInvoiceNumber sc s of
        (sc', s1) \<Rightarrow> create_run rest (snd (handleSave now sc' s1)))"

text \<open>
  The format of an invoice number as the specification words it: the text \<^verbatim>\<open>INV-\<close>
  followed by \<open>n\<close> zero-padded to six digits, that is, by decimal digits whose value is
  \<open>n\<close>, at least six of them, and more than six only when the first is not a zero.
\<close>

definition is_digit :: "char \<Rightarrow> bool" where
  "is_digit c \<longleftrightarrow> c \<in> set ''0123456789''"

definition digit_value :: "char \<Rightarrow> nat" where
  "digit_value c = of_char c - 48"

definition dec_value :: "string \<Rightarrow> nat" where
  "dec_value ds = foldl (\<lambda>a c. 10 * a + digit_value c) 0 ds"

definition zero_padded :: "nat \<Rightarrow> nat \<Rightarrow> string \<Rightarrow> bool" where
  "zero_padded w n ds \<longleftrightarrow>
     list_all is_digit ds \<and> dec_value ds = n \<and> w \<le> length ds \<and>
     (w < length ds \<longrightarrow> hd ds \<noteq> CHR ''0'')"

definition number_is :: "nat \<Rightarrow> string \<Rightarrow> bool" where
  "number_is n str \<longleftrightarrow> take 4 str = ''INV-'' \<and> zero_padded 6 n (drop 4 str)"

text \<open>\<open>shop_with n\<close> is \<open>shop\<close> with \<open>n\<close> invoices on record.\<close>

definition shop_with :: "nat \<Rightarrow> service" where
  "shop_with n = shop\<lparr>store := (store shop)\<lparr>invoices :=
     map (\<lambda>k. \<lparr>inv_id = k,
                inv_invoice_number = ''INV-'' @ padStart 6 (CHR ''0'') (String_of k),
                inv_customer_id = 1, inv_invoice_date = ''2024-01-02'', inv_subtotal = 5,
                inv_vat_amount = 0.75, inv_total_amount = 5.75,
                inv_created_at = ''2024-01-02 12:00:00''\<rparr>) [1..<Suc n],
     seq_invoices := n\<rparr>\<rparr>"





section \<open>Helper lemmas\<close>

lemma map_upd_absent:
  "a \<notin> k ` set xs \<Longrightarrow> map (\<lambda>r. if k r = a then f r else r) xs = xs"
  by (induction xs) auto

lemma filter_absent: "a \<notin> k ` set xs \<Longrightarrow> filter (\<lambda>r. k r \<noteq> a) xs = xs"
  by (induction xs) auto

text \<open>A component of the state that neither of two sequenced calls changes is unchanged.\<close>

lemma await_frame:
  assumes "\<And>s. f (snd (m s)) = f s" and "\<And>a s. f (snd (g a s)) = f s"
  shows "f (snd (await m g s)) = f s"
proof (cases "m s")
  case (Pair r s')
  then have eq: "f s' = f s" using assms(1) [of s] by simp
  show ?thesis
  proof (cases r)
    case (Inl e)
    with Pair eq show ?thesis by (simp add: await_def)
  next
    case (Inr a)
    with Pair eq assms(2) [of a s'] show ?thesis by (simp add: await_def)
  qed
qed

lemma addInvoiceItem_items: "items (store (snd (addInvoiceItem v i q p e s))) = items (store s)"
  by (simp add: addInvoiceItem_def Let_def)

lemma updateInvoice_items: "items (store (snd (updateInvoice v c d a b t s))) = items (store s)"
  by (simp add: updateInvoice_def)

lemma deleteInvoiceItems_items: "items (store (snd (deleteInvoiceItems v s))) = items (store s)"
  by (simp add: deleteInvoiceItems_def)

lemma update_lines_items: "items (store (snd (update_lines v ls s))) = items (store s)"
proof (induction ls arbitrary: s)
  case Nil
  show ?case by simp
next
  case (Cons l ls)
  show ?case
    unfolding update_lines.simps
    by (rule await_frame [where f = "\<lambda>s. items (store s)"])
       (simp_all add: addInvoiceItem_items Cons.IH)
qed

lemma update_body_items:
  assumes "sc_invoiceId sc = Some (Suc k)"
  shows "items (store (snd (save_body now sc s))) = items (store s)"
  unfolding save_body_def Let_def using assms
  apply simp
  apply (rule await_frame [where f = "\<lambda>s. items (store s)"])
   apply (simp add: updateInvoice_items)
  apply (rule await_frame [where f = "\<lambda>s. items (store s)"])
   apply (simp add: deleteInvoiceItems_items)
  apply (rule await_frame [where f = "\<lambda>s. items (store s)"])
   apply (simp add: update_lines_items)
  apply simp
  done

text \<open>The sample sale really produces the sample state \<open>sold\<close>.\<close>

lemma sale_form_saved:
  "handleSave ''2024-01-02 12:00:00'' sale_form shop = (ShowSuccess ''Invoice created successfully'', sold)"
  by (simp add: handleSave_def save_body_def calculateTotals_def sale_form_def laptop_line_def
      shop_def sold_def await_def addInvoice_def addInvoiceItem_def updateItemQuantity_def
      next_rowid_def VAT_RATE_def Let_def)

section \<open>Verified properties\<close>

subsection \<open>Invoice update leaves stock alone\<close>

text \<open>
  Claim C5. When the form was opened on an existing invoice (the route parameter
  \<^verbatim>\<open>invoiceId\<close> is a non-zero id), \<^verbatim>\<open>handleSave\<close> leaves the whole \<^verbatim>\<open>items\<close> table,
  and so every item's quantity, as it was: whatever customer, date and lines the form
  holds, and whether the save succeeds or throws on the way.
\<close>

theorem invoice_update_keeps_stock:
  assumes "sc_invoiceId sc = Some (Suc k)"
  shows "items (store (snd (handleSave now sc s))) = items (store s)"
proof (cases "save_body now sc s")
  case (Pair r s')
  with update_body_items [OF assms, of now s] have "items (store s') = items (store s)" by simp
  with Pair show ?thesis by (cases r) (simp_all add: handleSave_def)
qed

theorem invoice_update_keeps_stock_witness:
  "sc_invoiceId edit_form = Some (Suc 0) \<and>
   fst (handleSave ''2024-01-03 08:00:00'' edit_form sold) = ShowSuccess ''Invoice updated successfully'' \<and>
   map ii_quantity (invoice_items (store (snd (handleSave ''2024-01-03 08:00:00'' edit_form sold)))) = [5] \<and>
   items (store (snd (handleSave ''2024-01-03 08:00:00'' edit_form sold))) = items (store sold) \<and>
   map i_quantity (items (store sold)) = [7, 2]"
proof -
  have h: "sc_invoiceId edit_form = Some (Suc 0)" by (simp add: edit_form_def)
  have run: "fst (handleSave ''2024-01-03 08:00:00'' edit_form sold) = ShowSuccess ''Invoice updated successfully'' \<and>
     map ii_quantity (invoice_items (store (snd (handleSave ''2024-01-03 08:00:00'' edit_form sold)))) = [5]"
    by (simp add: handleSave_def save_body_def calculateTotals_def edit_form_def laptop_line_def
        shop_def sold_def await_def updateInvoice_def deleteInvoiceItems_def addInvoiceItem_def
        next_rowid_def VAT_RATE_def Let_def)
  have q: "map i_quantity (items (store sold)) = [7, 2]" by (simp add: sold_def shop_def)
  from invoice_update_keeps_stock [OF h, of "''2024-01-03 08:00:00''" sold] h run q
  show ?thesis by simp
qed

subsection \<open>Calls on a store that was not initialised\<close>

text \<open>
  Claim C7. While the handle \<^verbatim>\<open>db\<close> is null, every public operation of the store
  (reads and writes of categories, items, customers, invoices and invoice lines, the
  invoice number and the dashboard counts) throws the error with the message
  "Database not initialized" and leaves the service state exactly as it was.
\<close>

theorem uninitialized_store_fails_fast:
  assumes "\<not> opened s"
  shows "not_initialized = Error ''Database not initialized'' \<and>
     getCategories s = (Inl not_initialized, s) \<and>
     addCategory now name description s = (Inl not_initialized, s) \<and>
     updateCategory cid name description s = (Inl not_initialized, s) \<and>
     deleteCategory cid s = (Inl not_initialized, s) \<and>
     getItems s = (Inl not_initialized, s) \<and>
     getItemsByCategory cid s = (Inl not_initialized, s) \<and>
     addItem now name cid price quantity description s = (Inl not_initialized, s) \<and>
     updateItem iid name cid price quantity description s = (Inl not_initialized, s) \<and>
     updateItemQuantity iid quantity s = (Inl not_initialized, s) \<and>
     deleteItem iid s = (Inl not_initialized, s) \<and>
     getCustomers s = (Inl not_initialized, s) \<and>
     addCustomer now name phone email s = (Inl not_initialized, s) \<and>
     updateCustomer cid name phone email s = (Inl not_initialized, s) \<and>
     deleteCustomer cid s = (Inl not_initialized, s) \<and>
     getInvoices s = (Inl not_initialized, s) \<and>
     generateInvoiceNumber s = (Inl not_initialized, s) \<and>
     addInvoice now invoiceNumber cid invoiceDate sub vat tot s = (Inl not_initialized, s) \<and>
     addInvoiceItem vid iid quantity price ext s = (Inl not_initialized, s) \<and>
     updateInvoice vid cid invoiceDate sub vat tot s = (Inl not_initialized, s) \<and>
     deleteInvoiceItems vid s = (Inl not_initialized, s) \<and>
     getInvoiceItems vid s = (Inl not_initialized, s) \<and>
     getDashboardStats s = (Inl not_initialized, s)"
  using assms
  by (simp add: not_initialized_def getCategories_def addCategory_def updateCategory_def
      deleteCategory_def getItems_def getItemsByCategory_def addItem_def updateItem_def
      updateItemQuantity_def deleteItem_def getCustomers_def addCustomer_def updateCustomer_def
      deleteCustomer_def getInvoices_def generateInvoiceNumber_def addInvoice_def
      addInvoiceItem_def updateInvoice_def deleteInvoiceItems_def getInvoiceItems_def
      getDashboardStats_def)

theorem uninitialized_store_fails_fast_witness:
  "\<not> opened fresh_service \<and>
   getCategories fresh_service = (Inl (Error ''Database not initialized''), fresh_service) \<and>
   addInvoice ''2024-01-01 10:00:00'' ''INV-000001'' 1 ''2024-01-01'' 100 15 115 fresh_service
      = (Inl (Error ''Database not initialized''), fresh_service) \<and>
   generateInvoiceNumber fresh_service = (Inl (Error ''Database not initialized''), fresh_service) \<and>
   getDashboardStats fresh_service = (Inl (Error ''Database not initialized''), fresh_service)"
proof -
  have h: "\<not> opened fresh_service" by (simp add: fresh_service_def)
  from uninitialized_store_fails_fast [OF h, of "''2024-01-01 10:00:00''" _ _ 1 _ _ _ _ _
         "''INV-000001''" "''2024-01-01''" 100 15 115]
  show ?thesis using h by simp
qed

subsection \<open>Deleting a category\<close>

text \<open>
  Claim C8. On an initialised store \<^verbatim>\<open>deleteCategory(id)\<close> returns without throwing,
  removes exactly the category rows of that id, and leaves the tables of items,
  customers, invoices and invoice lines as they were: an item that referenced the
  category is still there, with the same \<^verbatim>\<open>category_id\<close>.
\<close>

theorem deleteCategory_removes_only_the_category:
  assumes "opened s"
  shows "\<exists>s'. deleteCategory cid s = (Inr (), s') \<and>
           categories (store s') = filter (\<lambda>r. c_id r \<noteq> cid) (categories (store s)) \<and>
           items (store s') = items (store s) \<and>
           customers (store s') = customers (store s) \<and>
           invoices (store s') = invoices (store s) \<and>
           invoice_items (store s') = invoice_items (store s)"
  using assms by (simp add: deleteCategory_def)

theorem deleteCategory_removes_only_the_category_witness:
  "opened shop \<and> map i_category_id (items (store shop)) = [1, 1] \<and>
   (\<exists>s'. deleteCategory 1 shop = (Inr (), s') \<and> categories (store s') = [] \<and>
      items (store s') = items (store shop) \<and>
      customers (store s') = customers (store shop) \<and>
      invoices (store s') = invoices (store shop) \<and>
      invoice_items (store s') = invoice_items (store shop))"
proof -
  have h: "opened shop" by (simp add: shop_def)
  from deleteCategory_removes_only_the_category [OF h, of 1]
  show ?thesis using h by (simp add: shop_def)
qed

subsection \<open>Updates and deletes of an id that is not there\<close>

text \<open>
  Claim C10. On an initialised store, an update or a delete whose id matches no row of
  its table returns without throwing and leaves the whole service state unchanged:
  \<^verbatim>\<open>updateCategory\<close>, \<^verbatim>\<open>deleteCategory\<close>, \<^verbatim>\<open>updateItem\<close>, \<^verbatim>\<open>updateItemQuantity\<close>,
  \<^verbatim>\<open>deleteItem\<close>, \<^verbatim>\<open>updateCustomer\<close>, \<^verbatim>\<open>deleteCustomer\<close>, \<^verbatim>\<open>updateInvoice\<close>, and
  \<^verbatim>\<open>deleteInvoiceItems\<close> for an invoice id that no line carries.
\<close>

theorem absent_id_update_delete_noop:
  assumes "opened s"
  shows "(cid \<notin> c_id ` set (categories (store s)) \<longrightarrow>
            updateCategory cid name description s = (Inr (), s) \<and>
            deleteCategory cid s = (Inr (), s)) \<and>
         (iid \<notin> i_id ` set (items (store s)) \<longrightarrow>
            updateItem iid name categoryId price quantity description s = (Inr (), s) \<and>
            updateItemQuantity iid quantity s = (Inr (), s) \<and>
            deleteItem iid s = (Inr (), s)) \<and>
         (uid \<notin> cu_id ` set (customers (store s)) \<longrightarrow>
            updateCustomer uid name phone email s = (Inr (), s) \<and>
            deleteCustomer uid s = (Inr (), s)) \<and>
         (vid \<notin> inv_id ` set (invoices (store s)) \<longrightarrow>
            updateInvoice vid customerId invoiceDate sub vat tot s = (Inr (), s)) \<and>
         (vid \<notin> ii_invoice_id ` set (invoice_items (store s)) \<longrightarrow>
            deleteInvoiceItems vid s = (Inr (), s))"
proof -
  have 1: "cid \<notin> c_id ` set (categories (store s)) \<Longrightarrow>
      updateCategory cid name description s = (Inr (), s)"
    using assms by (auto simp: updateCategory_def map_upd_absent)
  have 2: "cid \<notin> c_id ` set (categories (store s)) \<Longrightarrow> deleteCategory cid s = (Inr (), s)"
    using assms by (simp add: deleteCategory_def filter_absent)
  have 3: "iid \<notin> i_id ` set (items (store s)) \<Longrightarrow>
      updateItem iid name categoryId price quantity description s = (Inr (), s)"
    using assms by (simp add: updateItem_def map_upd_absent)
  have 4: "iid \<notin> i_id ` set (items (store s)) \<Longrightarrow> updateItemQuantity iid quantity s = (Inr (), s)"
    using assms by (simp add: updateItemQuantity_def map_upd_absent)
  have 5: "iid \<notin> i_id ` set (items (store s)) \<Longrightarrow> deleteItem iid s = (Inr (), s)"
    using assms by (simp add: deleteItem_def filter_absent)
  have 6: "uid \<notin> cu_id ` set (customers (store s)) \<Longrightarrow>
      updateCustomer uid name phone email s = (Inr (), s)"
    using assms by (simp add: updateCustomer_def map_upd_absent)
  have 7: "uid \<notin> cu_id ` set (customers (store s)) \<Longrightarrow> deleteCustomer uid s = (Inr (), s)"
    using assms by (simp add: deleteCustomer_def filter_absent)
  have 8: "vid \<notin> inv_id ` set (invoices (store s)) \<Longrightarrow>
      updateInvoice vid customerId invoiceDate sub vat tot s = (Inr (), s)"
    using assms by (simp add: updateInvoice_def map_upd_absent)
  have 9: "vid \<notin> ii_invoice_id ` set (invoice_items (store s)) \<Longrightarrow>
      deleteInvoiceItems vid s = (Inr (), s)"
    using assms by (simp add: deleteInvoiceItems_def filter_absent)
  from 1 2 3 4 5 6 7 8 9 show ?thesis by blast
qed

theorem absent_id_update_delete_noop_witness:
  "opened sold \<and> 9 \<notin> c_id ` set (categories (store sold)) \<and>
   9 \<notin> i_id ` set (items (store sold)) \<and> 9 \<notin> cu_id ` set (customers (store sold)) \<and>
   9 \<notin> inv_id ` set (invoices (store sold)) \<and>
   9 \<notin> ii_invoice_id ` set (invoice_items (store sold)) \<and>
   updateCategory 9 ''Toys'' None sold = (Inr (), sold) \<and>
   deleteCategory 9 sold = (Inr (), sold) \<and>
   updateItem 9 ''Toys'' 1 20 4 None sold = (Inr (), sold) \<and>
   updateItemQuantity 9 4 sold = (Inr (), sold) \<and>
   deleteItem 9 sold = (Inr (), sold) \<and>
   updateCustomer 9 ''Toys'' ''555-0101'' None sold = (Inr (), sold) \<and>
   deleteCustomer 9 sold = (Inr (), sold) \<and>
   updateInvoice 9 1 ''2024-01-05'' 10 1.5 11.5 sold = (Inr (), sold) \<and>
   deleteInvoiceItems 9 sold = (Inr (), sold)"
proof -
  have h: "opened sold" by (simp add: sold_def shop_def)
  have a: "9 \<notin> c_id ` set (categories (store sold))" "9 \<notin> i_id ` set (items (store sold))"
    "9 \<notin> cu_id ` set (customers (store sold))" "9 \<notin> inv_id ` set (invoices (store sold))"
    "9 \<notin> ii_invoice_id ` set (invoice_items (store sold))"
    by (simp_all add: sold_def shop_def)
  from absent_id_update_delete_noop [OF h, of 9 "''Toys''" None 9 1 20 4 9
        "''555-0101''" None 9 1 "''2024-01-05''" 10 "1.5" "11.5"] h a
  show ?thesis by simp
qed

subsection \<open>Optional fields that the caller leaves out\<close>

lemma foldr_max_ge: "x \<in> set ids \<Longrightarrow> x \<le> foldr max ids (0::nat)"
  by (induction ids) (auto simp: max_def)

lemma next_rowid_fresh: "x \<in> set ids \<Longrightarrow> x < next_rowid sq ids"
  using foldr_max_ge [of x ids] by (simp add: next_rowid_def)


lemma upd_all:
  assumes "\<And>r. P (f r)" and "\<And>r. k (f r) = k r"
  shows "\<forall>r \<in> set (map (\<lambda>r. if k r = a then f r else r) xs). k r = a \<longrightarrow> P r"
  by (induction xs) (simp_all add: assms)









subsection \<open>Initialisation and the default categories\<close>

lemma ioi_present: "n \<in> set (map c_name (categories (insert_or_ignore_category now n desc d)))"
  by (simp add: insert_or_ignore_category_def Let_def)

lemma ioi_mono:
  "m \<in> set (map c_name (categories d)) \<Longrightarrow>
   m \<in> set (map c_name (categories (insert_or_ignore_category now n desc d)))"
  by (simp add: insert_or_ignore_category_def Let_def)

lemma foldr_max_Suc: "foldr max xs (Suc a) = max (foldr max xs 0) (Suc a)"
  by (induction xs) (simp_all add: max.assoc)

lemma ioi_skip:
  assumes "n \<in> set (map c_name (categories d))"
    and "foldr max (map c_id (categories d)) 0 \<le> seq_categories d"
  shows "insert_or_ignore_category now n desc d = d\<lparr>seq_categories := Suc (seq_categories d)\<rparr>"
  using assms by (simp add: insert_or_ignore_category_def next_rowid_def Let_def max_absorb1)

lemma ioi_seq_ge:
  "foldr max (map c_id (categories (insert_or_ignore_category now n desc d))) 0
     \<le> seq_categories (insert_or_ignore_category now n desc d)"
  by (simp add: insert_or_ignore_category_def next_rowid_def Let_def foldr_max_Suc le_SucI)

lemma ioi_prefix:
  "\<exists>new. categories (insert_or_ignore_category now n desc d) = categories d @ new"
  by (simp add: insert_or_ignore_category_def Let_def)

lemma ioi_distinct:
  "distinct (map c_name (categories d)) \<Longrightarrow>
   distinct (map c_name (categories (insert_or_ignore_category now n desc d)))"
  by (auto simp: insert_or_ignore_category_def Let_def)

lemma initDatabase_eq:
  "initDatabase now s = (Inr (), \<lparr>opened = True, store = insert_default_rows now (store s)\<rparr>)"
  by (simp add: initDatabase_def await_def createTables_def insertDefaultData_def)

lemma default_rows_names:
  "{''Electronics'', ''Clothing'', ''Books'', ''Home & Garden''}
     \<subseteq> set (map c_name (categories (insert_default_rows now d)))"
  unfolding insert_default_rows_def
  by (intro insert_subsetI empty_subsetI ioi_present ioi_mono)

lemma default_rows_seq_ge:
  "foldr max (map c_id (categories (insert_default_rows now d))) 0
     \<le> seq_categories (insert_default_rows now d)"
  unfolding insert_default_rows_def by (rule ioi_seq_ge)

text \<open>
  When the four names are there, the four statements of a run insert nothing: each
  allocates a rowid and skips its row.
\<close>

lemma default_rows_again:
  assumes "{''Electronics'', ''Clothing'', ''Books'', ''Home & Garden''}
     \<subseteq> set (map c_name (categories d))"
    and "foldr max (map c_id (categories d)) 0 \<le> seq_categories d"
  shows "insert_default_rows now d = d\<lparr>seq_categories := seq_categories d + 4\<rparr>"
proof -
  let ?d1 = "d\<lparr>seq_categories := Suc (seq_categories d)\<rparr>"
  let ?d2 = "d\<lparr>seq_categories := Suc (Suc (seq_categories d))\<rparr>"
  let ?d3 = "d\<lparr>seq_categories := Suc (Suc (Suc (seq_categories d)))\<rparr>"
  let ?d4 = "d\<lparr>seq_categories := Suc (Suc (Suc (Suc (seq_categories d))))\<rparr>"
  from assms(1) have n: "''Electronics'' \<in> set (map c_name (categories d))"
    "''Clothing'' \<in> set (map c_name (categories d))"
    "''Books'' \<in> set (map c_name (categories d))"
    "''Home & Garden'' \<in> set (map c_name (categories d))" by simp_all
  have 1: "insert_or_ignore_category now ''Electronics'' ''Electronic devices and accessories'' d = ?d1"
    by (rule ioi_skip [OF n(1) assms(2)])
  have 2: "insert_or_ignore_category now ''Clothing'' ''Apparel and fashion items'' ?d1 = ?d2"
    using ioi_skip [of "''Clothing''" ?d1 now "''Apparel and fashion items''"] n(2) assms(2)
    by simp
  have 3: "insert_or_ignore_category now ''Books'' ''Books and educational materials'' ?d2 = ?d3"
    using ioi_skip [of "''Books''" ?d2 now "''Books and educational materials''"] n(3) assms(2)
    by simp
  have 4: "insert_or_ignore_category now ''Home & Garden''
             ''Home improvement and garden supplies'' ?d3 = ?d4"
    using ioi_skip [of "''Home & Garden''" ?d3 now "''Home improvement and garden supplies''"]
      n(4) assms(2)
    by simp
  have "insert_default_rows now d = ?d4"
    unfolding insert_default_rows_def by (simp only: 1 2 3 4)
  then show ?thesis by simp
qed

lemma default_rows_prefix: "\<exists>new. categories (insert_default_rows now d) = categories d @ new"
proof -
  let ?d1 = "insert_or_ignore_category now ''Electronics'' ''Electronic devices and accessories'' d"
  let ?d2 = "insert_or_ignore_category now ''Clothing'' ''Apparel and fashion items'' ?d1"
  let ?d3 = "insert_or_ignore_category now ''Books'' ''Books and educational materials'' ?d2"
  obtain n1 where 1: "categories ?d1 = categories d @ n1"
    using ioi_prefix by blast
  obtain n2 where 2: "categories ?d2 = categories ?d1 @ n2"
    using ioi_prefix by blast
  obtain n3 where 3: "categories ?d3 = categories ?d2 @ n3"
    using ioi_prefix by blast
  obtain n4 where 4: "categories (insert_default_rows now d) = categories ?d3 @ n4"
    unfolding insert_default_rows_def using ioi_prefix by blast
  from 1 2 3 4 show ?thesis by simp
qed

lemma default_rows_distinct:
  "distinct (map c_name (categories d)) \<Longrightarrow>
   distinct (map c_name (categories (insert_default_rows now d)))"
  unfolding insert_default_rows_def by (intro ioi_distinct)

text \<open>
  Claim C6. From any state of the database file and with any clock readings, running
  \<^verbatim>\<open>initDatabase\<close> a second time leaves the category table as the first run left
  it; the only thing the second run changes in the whole service state is the rowid
  counter of the category table, which its four skipped inserts advance by four. A run
  keeps every category row that was there, unchanged and in place (rows the user edited
  included), and only appends; afterwards the four default names are present; and
  category names that were pairwise different before a run are pairwise different after
  it, so no default category is duplicated.
\<close>

theorem initDatabase_idempotent_on_categories:
  "categories (store (snd (initDatabase t2 (snd (initDatabase t1 s)))))
     = categories (store (snd (initDatabase t1 s))) \<and>
   snd (initDatabase t2 (snd (initDatabase t1 s)))
     = (snd (initDatabase t1 s))\<lparr>store := (store (snd (initDatabase t1 s)))
          \<lparr>seq_categories := seq_categories (store (snd (initDatabase t1 s))) + 4\<rparr>\<rparr> \<and>
   (\<exists>new. categories (store (snd (initDatabase t1 s))) = categories (store s) @ new) \<and>
   {''Electronics'', ''Clothing'', ''Books'', ''Home & Garden''}
     \<subseteq> set (map c_name (categories (store (snd (initDatabase t1 s))))) \<and>
   (distinct (map c_name (categories (store s))) \<longrightarrow>
      distinct (map c_name (categories (store (snd (initDatabase t1 s))))))"
proof -
  let ?d1 = "insert_default_rows t1 (store s)"
  have again: "insert_default_rows t2 ?d1 = ?d1\<lparr>seq_categories := seq_categories ?d1 + 4\<rparr>"
    by (rule default_rows_again) (rule default_rows_names, rule default_rows_seq_ge)
  show ?thesis
    using default_rows_prefix [of t1 "store s"] default_rows_names [of t1 "store s"]
      default_rows_distinct [of "store s" t1]
    by (simp add: initDatabase_eq again)
qed

theorem initDatabase_idempotent_on_categories_witness:
  "distinct (map c_name (categories (store shop))) \<and>
   map c_description (categories (store shop)) = [Some ''Phones and laptops''] \<and>
   seq_categories (store shop) = 1 \<and>
   map (\<lambda>r. (c_id r, c_name r, c_description r))
       (categories (store (snd (initDatabase ''2024-03-01 08:00:00'' shop)))) =
     [(1, ''Electronics'', Some ''Phones and laptops''),
      (3, ''Clothing'', Some ''Apparel and fashion items''),
      (4, ''Books'', Some ''Books and educational materials''),
      (5, ''Home & Garden'', Some ''Home improvement and garden supplies'')] \<and>
   seq_categories (store (snd (initDatabase ''2024-03-01 08:00:00'' shop))) = 5 \<and>
   categories (store (snd (initDatabase ''2024-03-02 08:00:00''
                            (snd (initDatabase ''2024-03-01 08:00:00'' shop)))))
     = categories (store (snd (initDatabase ''2024-03-01 08:00:00'' shop))) \<and>
   seq_categories (store (snd (initDatabase ''2024-03-02 08:00:00''
                            (snd (initDatabase ''2024-03-01 08:00:00'' shop))))) = 9 \<and>
   distinct (map c_name (categories (store (snd (initDatabase ''2024-03-01 08:00:00'' shop)))))"
proof -
  let ?s1 = "snd (initDatabase ''2024-03-01 08:00:00'' shop)"
  let ?s2 = "snd (initDatabase ''2024-03-02 08:00:00'' ?s1)"
  have d: "distinct (map c_name (categories (store shop)))"
    and e: "map c_description (categories (store shop)) = [Some ''Phones and laptops'']"
    and q: "seq_categories (store shop) = 1"
    by (simp_all add: shop_def)
  have run: "map (\<lambda>r. (c_id r, c_name r, c_description r)) (categories (store ?s1)) =
     [(1, ''Electronics'', Some ''Phones and laptops''),
      (3, ''Clothing'', Some ''Apparel and fashion items''),
      (4, ''Books'', Some ''Books and educational materials''),
      (5, ''Home & Garden'', Some ''Home improvement and garden supplies'')]"
    and q1: "seq_categories (store ?s1) = 5"
    by (simp_all add: initDatabase_eq insert_default_rows_def insert_or_ignore_category_def
        next_rowid_def shop_def Let_def)
  note inst = initDatabase_idempotent_on_categories
         [of "''2024-03-02 08:00:00''" "''2024-03-01 08:00:00''" shop]
  from inst have c: "categories (store ?s2) = categories (store ?s1)" by blast
  from inst have "?s2 = ?s1\<lparr>store := (store ?s1)\<lparr>seq_categories := seq_categories (store ?s1) + 4\<rparr>\<rparr>"
    by blast
  then have "seq_categories (store ?s2) = seq_categories (store ?s1) + 4"
    by simp
  with q1 have q2: "seq_categories (store ?s2) = 9" by simp
  from inst d have d1: "distinct (map c_name (categories (store ?s1)))" by blast
  from d e q run q1 c q2 d1 show ?thesis by blast
qed

subsection \<open>What a successful save writes\<close>

lemma upd_keys:
  assumes "\<And>r. k (f r) = k r"
  shows "map k (map (\<lambda>r. if k r = a then f r else r) xs) = map k xs"
  by (induction xs) (simp_all add: assms)

lemma addInvoiceItem_effect:
  assumes "opened s"
  shows "\<exists>s'. addInvoiceItem v i q p e s = (Inr (), s') \<and> opened s' \<and>
           invoices (store s') = invoices (store s) \<and>
           lines_of w s' = lines_of w s @ (if v = w then [(i, q, p, e)] else [])"
  using assms by (simp add: addInvoiceItem_def Let_def lines_of_def row_fields_def)

lemma addInvoiceItem_effect_same:
  assumes "opened s"
  shows "\<exists>s'. addInvoiceItem v i q p e s = (Inr (), s') \<and> opened s' \<and>
           invoices (store s') = invoices (store s) \<and>
           lines_of v s' = lines_of v s @ [(i, q, p, e)]"
  using addInvoiceItem_effect [OF assms, of v i q p e v] by simp

lemma updateItemQuantity_effect:
  assumes "opened s"
  shows "\<exists>s'. updateItemQuantity i q s = (Inr (), s') \<and> opened s' \<and>
           invoices (store s') = invoices (store s) \<and>
           lines_of v s' = lines_of v s"
  using assms by (simp add: updateItemQuantity_def lines_of_def)

lemma update_lines_effect:
  assumes "opened s"
  shows "\<exists>s'. update_lines v ls s = (Inr (), s') \<and> opened s' \<and>
           invoices (store s') = invoices (store s) \<and>
           lines_of v s' = lines_of v s @ map line_fields ls"
  using assms
proof (induction ls arbitrary: s)
  case Nil
  then show ?case by simp
next
  case (Cons l ls)
  obtain s1 where 1: "addInvoiceItem v (d_item_id l) (d_quantity l) (d_unit_price l)
              (d_extended_amount l) s = (Inr (), s1)" "opened s1"
     "invoices (store s1) = invoices (store s)"
     "lines_of v s1 = lines_of v s @ [line_fields l]"
    using addInvoiceItem_effect_same [OF Cons.prems] unfolding line_fields_def by blast
  obtain s2 where 2: "update_lines v ls s1 = (Inr (), s2)" "opened s2"
     "invoices (store s2) = invoices (store s1)"
     "lines_of v s2 = lines_of v s1 @ map line_fields ls"
    using Cons.IH [OF 1(2)] by blast
  have "update_lines v (l # ls) s = (Inr (), s2)"
    by (simp add: await_def 1(1) 2(1))
  with 1 2 show ?case by simp
qed

lemma create_lines_effect:
  assumes "opened s"
  shows "\<exists>s'. create_lines its v ls s = (Inr (), s') \<and> opened s' \<and>
           invoices (store s') = invoices (store s) \<and>
           lines_of v s' = lines_of v s @ map line_fields ls"
  using assms
proof (induction ls arbitrary: s)
  case Nil
  then show ?case by simp
next
  case (Cons l ls)
  obtain s1 where 1: "addInvoiceItem v (d_item_id l) (d_quantity l) (d_unit_price l)
              (d_extended_amount l) s = (Inr (), s1)" "opened s1"
     "invoices (store s1) = invoices (store s)"
     "lines_of v s1 = lines_of v s @ [line_fields l]"
    using addInvoiceItem_effect_same [OF Cons.prems] unfolding line_fields_def by blast
  let ?upd = "case find (\<lambda>i. i_id i = d_item_id l) its of
             None \<Rightarrow> (\<lambda>s. (Inr (), s))
           | Some currentItem \<Rightarrow>
               updateItemQuantity (d_item_id l)
                 (max 0 (i_quantity currentItem - d_quantity l))"
  have "\<exists>s'. ?upd s1 = (Inr (), s') \<and> opened s' \<and> invoices (store s') = invoices (store s1) \<and>
           lines_of v s' = lines_of v s1"
  proof (cases "find (\<lambda>i. i_id i = d_item_id l) its")
    case None
    then show ?thesis using 1(2) by simp
  next
    case (Some c)
    then show ?thesis using updateItemQuantity_effect [OF 1(2)] by simp
  qed
  then obtain s2 where 2: "?upd s1 = (Inr (), s2)" "opened s2"
     "invoices (store s2) = invoices (store s1)" "lines_of v s2 = lines_of v s1"
    by blast
  obtain s3 where 3: "create_lines its v ls s2 = (Inr (), s3)" "opened s3"
     "invoices (store s3) = invoices (store s2)"
     "lines_of v s3 = lines_of v s2 @ map line_fields ls"
    using Cons.IH [OF 2(2)] by blast
  have "create_lines its v (l # ls) s = (Inr (), s3)"
    by (simp add: await_def 1(1) 2(1) 3(1))
  with 1 2 3 show ?case by simp
qed






lemma handleSave_success:
  assumes "fst (handleSave now sc s) = ShowSuccess msg"
  shows "fd_customer_id (sc_formData sc) \<noteq> 0 \<and> fd_items (sc_formData sc) \<noteq> [] \<and>
         save_body now sc s = (Inr msg, snd (handleSave now sc s))"
proof (cases "save_body now sc s")
  case (Pair r s')
  show ?thesis
  proof (cases r)
    case (Inl e)
    with Pair assms show ?thesis by (simp add: handleSave_def split: if_splits)
  next
    case (Inr m)
    with Pair assms show ?thesis by (simp add: handleSave_def split: if_splits)
  qed
qed

lemma save_body_create:
  assumes "\<not> is_update sc"
  shows "save_body now sc s =
           await (addInvoice now (sc_invoiceNumber sc) (fd_customer_id (sc_formData sc))
                      (fd_invoice_date (sc_formData sc)) (subtotal (calculateTotals sc))
                      (vatAmount (calculateTotals sc)) (total (calculateTotals sc)))
               (\<lambda>newInvoiceId. await (create_lines (sc_items sc) newInvoiceId (fd_items (sc_formData sc)))
                 (\<lambda>_ s. (Inr ''Invoice created successfully'', s))) s"
  using assms by (simp add: save_body_def is_update_def Let_def split: option.splits nat.splits)

lemma save_body_update:
  assumes "sc_invoiceId sc = Some (Suc k)"
  shows "save_body now sc s =
             await (updateInvoice (Suc k) (fd_customer_id (sc_formData sc)) (fd_invoice_date (sc_formData sc))
                      (subtotal (calculateTotals sc)) (vatAmount (calculateTotals sc)) (total (calculateTotals sc)))
               (\<lambda>_. await (deleteInvoiceItems (Suc k))
                 (\<lambda>_. await (update_lines (Suc k) (fd_items (sc_formData sc)))
                   (\<lambda>_ s. (Inr ''Invoice updated successfully'', s)))) s"
  using assms by (simp add: save_body_def Let_def)

text \<open>The create branch, forwards: when its guards pass, the save succeeds and writes this.\<close>

lemma create_forward:
  assumes o: "opened s" and cr: "\<not> is_update sc"
    and c: "fd_customer_id (sc_formData sc) \<noteq> 0" and ne: "fd_items (sc_formData sc) \<noteq> []"
    and u: "sc_invoiceNumber sc \<notin> set (map inv_invoice_number (invoices (store s)))"
  shows "\<exists>s' row. handleSave now sc s = (ShowSuccess ''Invoice created successfully'', s') \<and>
           opened s' \<and> invoices (store s') = invoices (store s) @ [row] \<and>
           inv_id row = saved_invoice_id sc s \<and>
           inv_invoice_number row = sc_invoiceNumber sc \<and>
           inv_subtotal row = subtotal (calculateTotals sc) \<and>
           inv_vat_amount row = vatAmount (calculateTotals sc) \<and>
           inv_total_amount row = total (calculateTotals sc) \<and>
           lines_of (saved_invoice_id sc s) s'
             = lines_of (saved_invoice_id sc s) s @ map line_fields (fd_items (sc_formData sc))"
proof -
  let ?v = "next_rowid (seq_invoices (store s)) (map inv_id (invoices (store s)))"
  let ?t = "calculateTotals sc"
  let ?ls = "fd_items (sc_formData sc)"
  let ?row = "\<lparr>inv_id = ?v, inv_invoice_number = sc_invoiceNumber sc,
                     inv_customer_id = fd_customer_id (sc_formData sc),
                     inv_invoice_date = fd_invoice_date (sc_formData sc),
                     inv_subtotal = subtotal ?t, inv_vat_amount = vatAmount ?t,
                     inv_total_amount = total ?t, inv_created_at = now\<rparr>"
  let ?s1 = "s\<lparr>store := (store s)\<lparr>invoices := invoices (store s) @ [?row], seq_invoices := ?v\<rparr>\<rparr>"
  let ?add = "addInvoice now (sc_invoiceNumber sc) (fd_customer_id (sc_formData sc))
                      (fd_invoice_date (sc_formData sc)) (subtotal ?t) (vatAmount ?t) (total ?t)"
  have vid: "saved_invoice_id sc s = ?v"
    using cr by (simp add: saved_invoice_id_def is_update_def split: option.splits nat.splits)
  have add: "?add s = (Inr ?v, ?s1)" using o u by (simp add: addInvoice_def Let_def)
  have o1: "opened ?s1" using o by simp
  obtain s3 where 3: "create_lines (sc_items sc) ?v ?ls ?s1 = (Inr (), s3)" "opened s3"
     "invoices (store s3) = invoices (store ?s1)"
     "lines_of ?v s3 = lines_of ?v ?s1 @ map line_fields ?ls"
    using create_lines_effect [OF o1] by blast
  have body: "save_body now sc s = (Inr ''Invoice created successfully'', s3)"
    unfolding save_body_create [OF cr] by (simp add: await_def add 3(1))
  have hs: "handleSave now sc s = (ShowSuccess ''Invoice created successfully'', s3)"
    using c ne by (simp add: handleSave_def body)
  have l1: "lines_of ?v ?s1 = lines_of ?v s" by (simp add: lines_of_def)
  have invs: "invoices (store s3) = invoices (store s) @ [?row]" using 3(3) by simp
  have "opened s3 \<and> invoices (store s3) = invoices (store s) @ [?row] \<and>
           inv_id ?row = ?v \<and>
           inv_invoice_number ?row = sc_invoiceNumber sc \<and>
           inv_subtotal ?row = subtotal (calculateTotals sc) \<and>
           inv_vat_amount ?row = vatAmount (calculateTotals sc) \<and>
           inv_total_amount ?row = total (calculateTotals sc) \<and>
           lines_of ?v s3 = lines_of ?v s @ map line_fields ?ls"
    using 3(2) invs 3(4) l1 by simp
  with hs show ?thesis unfolding vid by blast
qed

text \<open>Backwards: a successful save on the create branch passed the guards.\<close>

lemma create_guard:
  assumes ok: "fst (handleSave now sc s) = ShowSuccess msg" and cr: "\<not> is_update sc"
  shows "opened s \<and> sc_invoiceNumber sc \<notin> set (map inv_invoice_number (invoices (store s)))"
proof (rule ccontr)
  let ?t = "calculateTotals sc"
  let ?add = "addInvoice now (sc_invoiceNumber sc) (fd_customer_id (sc_formData sc))
                      (fd_invoice_date (sc_formData sc)) (subtotal ?t) (vatAmount ?t) (total ?t)"
  assume "\<not> ?thesis"
  then have "\<exists>e. ?add s = (Inl e, s)" by (auto simp: addInvoice_def)
  then obtain e where "?add s = (Inl e, s)" by blast
  then have "save_body now sc s = (Inl e, s)"
    unfolding save_body_create [OF cr] by (simp add: await_def)
  with handleSave_success [OF ok] show False by simp
qed

lemma update_effect:
  assumes ok: "fst (handleSave now sc s) = ShowSuccess msg"
    and up: "sc_invoiceId sc = Some (Suc k)"
  shows "opened (snd (handleSave now sc s)) \<and>
         lines_of (Suc k) (snd (handleSave now sc s)) = map line_fields (fd_items (sc_formData sc)) \<and>
         inv_id ` set (invoices (store (snd (handleSave now sc s)))) = inv_id ` set (invoices (store s)) \<and>
         (\<forall>iv \<in> set (invoices (store (snd (handleSave now sc s)))). inv_id iv = Suc k \<longrightarrow>
            inv_subtotal iv = subtotal (calculateTotals sc) \<and>
            inv_vat_amount iv = vatAmount (calculateTotals sc) \<and>
            inv_total_amount iv = total (calculateTotals sc))"
proof -
  let ?s' = "snd (handleSave now sc s)"
  let ?v = "Suc k"
  let ?t = "calculateTotals sc"
  let ?ls = "fd_items (sc_formData sc)"
  let ?f = "\<lambda>r. r\<lparr>inv_customer_id := fd_customer_id (sc_formData sc),
                   inv_invoice_date := fd_invoice_date (sc_formData sc),
                   inv_subtotal := subtotal ?t, inv_vat_amount := vatAmount ?t,
                   inv_total_amount := total ?t\<rparr>"
  let ?invs = "map (\<lambda>r. if inv_id r = ?v then ?f r else r) (invoices (store s))"
  let ?s1 = "s\<lparr>store := (store s)\<lparr>invoices := ?invs\<rparr>\<rparr>"
  let ?s2 = "s\<lparr>store := (store s)\<lparr>invoices := ?invs, invoice_items :=
              filter (\<lambda>r. ii_invoice_id r \<noteq> ?v) (invoice_items (store s))\<rparr>\<rparr>"
  let ?upd = "updateInvoice ?v (fd_customer_id (sc_formData sc)) (fd_invoice_date (sc_formData sc))
                      (subtotal ?t) (vatAmount ?t) (total ?t)"
  from handleSave_success [OF ok]
  have body: "save_body now sc s = (Inr msg, ?s')" by simp
  have o: "opened s"
  proof (rule ccontr)
    assume "\<not> opened s"
    then have "?upd s = (Inl not_initialized, s)" by (simp add: updateInvoice_def)
    then have "save_body now sc s = (Inl not_initialized, s)"
      unfolding save_body_update [OF up] by (simp add: await_def)
    with body show False by simp
  qed
  have 1: "?upd s = (Inr (), ?s1)" using o by (simp add: updateInvoice_def)
  have 2: "deleteInvoiceItems ?v ?s1 = (Inr (), ?s2)" using o by (simp add: deleteInvoiceItems_def)
  have o2: "opened ?s2" using o by simp
  obtain s3 where 3: "update_lines ?v ?ls ?s2 = (Inr (), s3)" "opened s3"
     "invoices (store s3) = invoices (store ?s2)"
     "lines_of ?v s3 = lines_of ?v ?s2 @ map line_fields ?ls"
    using update_lines_effect [OF o2] by blast
  have "save_body now sc s = (Inr ''Invoice updated successfully'', s3)"
    unfolding save_body_update [OF up] by (simp add: await_def 1 2 3(1))
  with body have s': "?s' = s3" by simp
  have "lines_of ?v ?s2 = []" by (simp add: lines_of_def)
  with 3(4) have lines: "lines_of ?v s3 = map line_fields ?ls" by simp
  have invs: "invoices (store s3) = ?invs" using 3(3) by simp
  have m: "map inv_id ?invs = map inv_id (invoices (store s))"
    by (rule upd_keys) simp
  have ids: "inv_id ` set (invoices (store s3)) = inv_id ` set (invoices (store s))"
    using arg_cong [OF m, of set] unfolding invs by (simp only: set_map)
  have all: "\<forall>iv \<in> set (invoices (store s3)). inv_id iv = ?v \<longrightarrow>
            inv_subtotal iv = subtotal ?t \<and> inv_vat_amount iv = vatAmount ?t \<and>
            inv_total_amount iv = total ?t"
    unfolding invs by (rule upd_all) simp_all
  show ?thesis unfolding s' using 3(2) lines ids all by blast
qed

subsection \<open>Stock is never written below zero\<close>

lemma await_inv:
  assumes "P s" and "\<And>s. P s \<Longrightarrow> P (snd (m s))" and "\<And>a s. P s \<Longrightarrow> P (snd (f a s))"
  shows "P (snd (await m f s))"
proof (cases "m s")
  case (Pair r s')
  then have p: "P s'" using assms(2) [OF assms(1)] by simp
  show ?thesis
  proof (cases r)
    case (Inl e)
    with Pair p show ?thesis by (simp add: await_def)
  next
    case (Inr a)
    with Pair assms(3) [OF p, of a] show ?thesis by (simp add: await_def)
  qed
qed

lemma map_upd_pred:
  assumes "\<forall>r \<in> set xs. P r" and "\<And>r. P (f r)"
  shows "\<forall>r \<in> set (map (\<lambda>r. if k r = a then f r else r) xs). P r"
  using assms(1) by (induction xs) (simp_all add: assms(2))

lemma addInvoice_items:
  "items (store (snd (addInvoice now n c d a b t s))) = items (store s)"
  by (simp add: addInvoice_def Let_def)

lemma updateItemQuantity_nonneg:
  assumes "\<forall>r \<in> set (items (store s)). 0 \<le> i_quantity r" and "0 \<le> q"
  shows "\<forall>r \<in> set (items (store (snd (updateItemQuantity i q s)))). 0 \<le> i_quantity r"
proof (cases "opened s")
  case False
  with assms(1) show ?thesis by (simp add: updateItemQuantity_def)
next
  case True
  have "\<forall>r \<in> set (map (\<lambda>r. if i_id r = i then r\<lparr>i_quantity := q\<rparr> else r) (items (store s))).
          0 \<le> i_quantity r"
    by (rule map_upd_pred [OF assms(1)]) (simp add: assms(2))
  with True show ?thesis by (simp add: updateItemQuantity_def)
qed

lemma create_lines_nonneg:
  assumes "\<forall>r \<in> set (items (store s)). 0 \<le> i_quantity r"
  shows "\<forall>r \<in> set (items (store (snd (create_lines its v ls s)))). 0 \<le> i_quantity r"
  using assms
proof (induction ls arbitrary: s)
  case Nil
  then show ?case by simp
next
  case (Cons l ls)
  let ?P = "\<lambda>s::service. \<forall>r \<in> set (items (store s)). 0 \<le> i_quantity r"
  have upd: "?P (snd ((case find (\<lambda>i. i_id i = d_item_id l) its of
             None \<Rightarrow> (\<lambda>s. (Inr (), s))
           | Some currentItem \<Rightarrow>
               updateItemQuantity (d_item_id l)
                 (max 0 (i_quantity currentItem - d_quantity l))) s))" if "?P s" for s :: service
  proof (cases "find (\<lambda>i. i_id i = d_item_id l) its")
    case None
    with that show ?thesis by simp
  next
    case (Some c)
    with updateItemQuantity_nonneg [OF that, of "max 0 (i_quantity c - d_quantity l)" "d_item_id l"]
    show ?thesis by simp
  qed
  show ?case
    unfolding create_lines.simps
  proof (rule await_inv [where P = ?P, OF Cons.prems])
    fix s :: service assume "?P s"
    then show "?P (snd (addInvoiceItem v (d_item_id l) (d_quantity l) (d_unit_price l)
              (d_extended_amount l) s))"
      by (simp add: addInvoiceItem_items)
  next
    fix a :: unit and s :: service assume p: "?P s"
    show "?P (snd (await
          (case find (\<lambda>i. i_id i = d_item_id l) its of
             None \<Rightarrow> (\<lambda>s. (Inr (), s))
           | Some currentItem \<Rightarrow>
               updateItemQuantity (d_item_id l)
                 (max 0 (i_quantity currentItem - d_quantity l)))
          (\<lambda>_. create_lines its v ls) s))"
    proof (rule await_inv [where P = ?P, OF p])
      fix s1 :: service assume "?P s1"
      then show "?P (snd ((case find (\<lambda>i. i_id i = d_item_id l) its of
             None \<Rightarrow> (\<lambda>s. (Inr (), s))
           | Some currentItem \<Rightarrow>
               updateItemQuantity (d_item_id l)
                 (max 0 (i_quantity currentItem - d_quantity l))) s1))"
        by (rule upd)
    next
      fix b :: unit and s2 :: service assume "?P s2"
      then show "?P (snd (create_lines its v ls s2))" by (rule Cons.IH)
    qed
  qed
qed

text \<open>
  The clamp of claim C1 holds on every path of \<^verbatim>\<open>handleSave\<close>: when no item quantity
  is negative before, none is negative after, whatever the form holds and whether the
  save succeeds or not.
\<close>

lemma handleSave_keeps_stock_nonnegative:
  assumes "\<forall>r \<in> set (items (store s)). 0 \<le> i_quantity r"
  shows "\<forall>r \<in> set (items (store (snd (handleSave now sc s)))). 0 \<le> i_quantity r"
proof -
  let ?P = "\<lambda>s::service. \<forall>r \<in> set (items (store s)). 0 \<le> i_quantity r"
  have body: "?P (snd (save_body now sc s))"
  proof (cases "is_update sc")
    case True
    then obtain k where up: "sc_invoiceId sc = Some (Suc k)"
      by (auto simp: is_update_def split: option.splits nat.splits)
    from update_body_items [OF up, of now s] assms show ?thesis by simp
  next
    case False
    show ?thesis
      unfolding save_body_create [OF False]
    proof (rule await_inv [where P = ?P, OF assms])
      fix s :: service assume "?P s"
      then show "?P (snd (addInvoice now (sc_invoiceNumber sc) (fd_customer_id (sc_formData sc))
                      (fd_invoice_date (sc_formData sc)) (subtotal (calculateTotals sc))
                      (vatAmount (calculateTotals sc)) (total (calculateTotals sc)) s))"
        by (simp add: addInvoice_items)
    next
      fix a :: nat and s :: service assume p: "?P s"
      show "?P (snd (await (create_lines (sc_items sc) a (fd_items (sc_formData sc)))
                 (\<lambda>_ s. (Inr ''Invoice created successfully'', s)) s))"
      proof (rule await_inv [where P = ?P, OF p])
        fix s1 :: service assume "?P s1"
        then show "?P (snd (create_lines (sc_items sc) a (fd_items (sc_formData sc)) s1))"
          by (rule create_lines_nonneg)
      next
        fix b :: unit and s2 :: service assume "?P s2"
        then show "?P (snd (Inr ''Invoice created successfully'' :: error + string, s2))" by simp
      qed
    qed
  qed
  show ?thesis
  proof (cases "save_body now sc s")
    case (Pair r s')
    with body have "?P s'" by simp
    with Pair assms show ?thesis by (cases r) (simp_all add: handleSave_def)
  qed
qed

text \<open>
  With one line per item the stock is what claim C1 says: 10 in stock and a line of 3
  leave 7 (\<open>sale_form_saved\<close> above), 2 in stock and a line of 5 leave 0.
\<close>

lemma oversold_line_clamps_to_zero:
  "map (\<lambda>r. (i_id r, i_quantity r))
     (items (store (snd (handleSave ''2024-01-02 12:00:00''
        (sale_form\<lparr>sc_formData := \<lparr>fd_customer_id = 1, fd_invoice_date = ''2024-01-02'',
           fd_items = [\<lparr>d_id = None, d_item_id = 2, d_item_name = ''Cable'', d_quantity = 5,
                        d_unit_price = 5, d_extended_amount = 25\<rparr>]\<rparr>\<rparr>) shop))))
     = [(1, 10), (2, 0)]"
  by (simp add: handleSave_def save_body_def calculateTotals_def sale_form_def
      shop_def await_def addInvoice_def addInvoiceItem_def updateItemQuantity_def
      next_rowid_def VAT_RATE_def Let_def)

text \<open>
  The premise of the next theorem on the create branch holds whenever every stored line
  belongs to a stored invoice: a new rowid is larger than every id in the table.
\<close>

lemma lines_of_stored_invoices_miss_new_id:
  assumes "\<forall>r \<in> set (invoice_items (store s)). ii_invoice_id r \<in> inv_id ` set (invoices (store s))"
    and "\<not> is_update sc"
  shows "\<forall>r \<in> set (invoice_items (store s)). ii_invoice_id r \<noteq> saved_invoice_id sc s"
proof
  fix r assume "r \<in> set (invoice_items (store s))"
  with assms(1) have "ii_invoice_id r \<in> set (map inv_id (invoices (store s)))" by simp
  from next_rowid_fresh [OF this, of "seq_invoices (store s)"]
  show "ii_invoice_id r \<noteq> saved_invoice_id sc s"
    using assms(2) by (simp add: saved_invoice_id_def is_update_def split: option.splits nat.splits)
qed

subsection \<open>Persisted totals against the lines read back\<close>




subsection \<open>Where the extended amount of a line comes from\<close>

lemma addOrUpdateItem_lines:
  "\<exists>new. d_extended_amount new = d_quantity new * d_unit_price new \<and>
     set (fd_items (sc_formData (snd (addOrUpdateItem form))))
       \<subseteq> insert new (set (fd_items (sc_formData form)))"
proof -
  let ?same = "\<lparr>d_id = None, d_item_id = 0, d_item_name = [], d_quantity = 0, d_unit_price = 0,
                 d_extended_amount = 0\<rparr>"
  have same: "snd (addOrUpdateItem form) = form \<Longrightarrow> ?thesis"
    by (intro exI [of _ ?same]) auto
  show ?thesis
  proof (cases "sc_selectedItemId form = 0")
    case True
    then show ?thesis by (intro same) (simp add: addOrUpdateItem_def)
  next
    case sel: False
    show ?thesis
    proof (cases "sc_itemQuantity form")
      case None
      then show ?thesis using sel by (intro same) (simp add: addOrUpdateItem_def)
    next
      case (Some q)
      note q = this
      show ?thesis
      proof (cases "sc_itemPrice form")
        case None
        then show ?thesis using sel q by (intro same) (simp add: addOrUpdateItem_def)
      next
        case (Some p)
        note p = this
        show ?thesis
        proof (cases "find (\<lambda>i. i_id i = sc_selectedItemId form) (sc_items form)")
          case None
          then show ?thesis using sel q p by (intro same) (simp add: addOrUpdateItem_def)
        next
          case (Some item)
          let ?new = "\<lparr>d_id = None, d_item_id = sc_selectedItemId form,
                        d_item_name = i_name item, d_quantity = q, d_unit_price = p,
                        d_extended_amount = q * p\<rparr>"
          have "set (fd_items (sc_formData (snd (addOrUpdateItem form))))
                  \<subseteq> insert ?new (set (fd_items (sc_formData form)))"
            using sel q p Some set_update_subset_insert [of "fd_items (sc_formData form)" _ ?new]
            by (auto simp: addOrUpdateItem_def Let_def)
          then show ?thesis by (intro exI [of _ ?new]) simp
        qed
      qed
    qed
  qed
qed

text \<open>
  Claim C3, as the code has it. The store does not recompute the extended amount:
  \<^verbatim>\<open>addInvoiceItem\<close> appends a line that holds the quantity, the unit price and the
  extended amount exactly as its caller passed them, and \<^verbatim>\<open>handleSave\<close> passes the
  form's lines through field by field. The product is taken in the form:
  \<^verbatim>\<open>addOrUpdateItem\<close> builds every line with extended amount quantity times unit price,
  so a form whose lines all satisfy that equation still does after the handler ran.
\<close>

theorem extended_amount_stored_as_supplied:
  "(opened s \<longrightarrow>
      (\<exists>s'. addInvoiceItem v i q p e s = (Inr (), s') \<and>
            lines_of v s' = lines_of v s @ [(i, q, p, e)])) \<and>
   ((\<forall>l \<in> set (fd_items (sc_formData form)). d_extended_amount l = d_quantity l * d_unit_price l) \<longrightarrow>
      (\<forall>l \<in> set (fd_items (sc_formData (snd (addOrUpdateItem form)))).
          d_extended_amount l = d_quantity l * d_unit_price l)) \<and>
   (fst (handleSave now sc t) = ShowSuccess msg \<and>
    (\<not> is_update sc \<longrightarrow>
       (\<forall>r \<in> set (invoice_items (store t)). ii_invoice_id r \<noteq> saved_invoice_id sc t)) \<longrightarrow>
      lines_of (saved_invoice_id sc t) (snd (handleSave now sc t))
        = map line_fields (fd_items (sc_formData sc)))"
proof (intro conjI impI)
  assume "opened s"
  from addInvoiceItem_effect_same [OF this, of v i q p e]
  show "\<exists>s'. addInvoiceItem v i q p e s = (Inr (), s') \<and>
            lines_of v s' = lines_of v s @ [(i, q, p, e)]" by blast
next
  assume a: "\<forall>l \<in> set (fd_items (sc_formData form)). d_extended_amount l = d_quantity l * d_unit_price l"
  from addOrUpdateItem_lines [of form] obtain new where
    n: "d_extended_amount new = d_quantity new * d_unit_price new"
      "set (fd_items (sc_formData (snd (addOrUpdateItem form))))
         \<subseteq> insert new (set (fd_items (sc_formData form)))" by blast
  show "\<forall>l \<in> set (fd_items (sc_formData (snd (addOrUpdateItem form)))).
          d_extended_amount l = d_quantity l * d_unit_price l"
  proof
    fix l assume "l \<in> set (fd_items (sc_formData (snd (addOrUpdateItem form))))"
    with n(2) have "l = new \<or> l \<in> set (fd_items (sc_formData form))" by blast
    with n(1) a show "d_extended_amount l = d_quantity l * d_unit_price l" by blast
  qed
next
  assume h: "fst (handleSave now sc t) = ShowSuccess msg \<and>
    (\<not> is_update sc \<longrightarrow>
       (\<forall>r \<in> set (invoice_items (store t)). ii_invoice_id r \<noteq> saved_invoice_id sc t))"
  then have ok: "fst (handleSave now sc t) = ShowSuccess msg" by simp
  show "lines_of (saved_invoice_id sc t) (snd (handleSave now sc t))
        = map line_fields (fd_items (sc_formData sc))"
  proof (cases "is_update sc")
    case True
    then obtain k where up: "sc_invoiceId sc = Some (Suc k)"
      by (auto simp: is_update_def split: option.splits nat.splits)
    then have v: "saved_invoice_id sc t = Suc k" by (simp add: saved_invoice_id_def)
    from update_effect [OF ok up] show ?thesis unfolding v by blast
  next
    case False
    from create_guard [OF ok False] handleSave_success [OF ok]
    have g: "opened t" "sc_invoiceNumber sc \<notin> set (map inv_invoice_number (invoices (store t)))"
      "fd_customer_id (sc_formData sc) \<noteq> 0" "fd_items (sc_formData sc) \<noteq> []" by simp_all
    from create_forward [OF g(1) False g(3) g(4) g(2), of now]
    obtain t' where f: "handleSave now sc t = (ShowSuccess ''Invoice created successfully'', t')"
      "lines_of (saved_invoice_id sc t) t'
         = lines_of (saved_invoice_id sc t) t @ map line_fields (fd_items (sc_formData sc))"
      by blast
    have "filter (\<lambda>r. ii_invoice_id r = saved_invoice_id sc t) (invoice_items (store t)) = []"
      using h False by (simp add: filter_empty_conv)
    then have "lines_of (saved_invoice_id sc t) t = []" by (simp add: lines_of_def)
    with f show ?thesis by simp
  qed
qed

theorem extended_amount_stored_as_supplied_witness:
  "opened sold \<and>
   list_all (\<lambda>l. d_extended_amount l = d_quantity l * d_unit_price l)
     (fd_items (sc_formData pick_form)) \<and>
   fst (handleSave ''2024-01-02 12:00:00'' sale_form shop) = ShowSuccess ''Invoice created successfully'' \<and>
   \<not> is_update sale_form \<and> invoice_items (store shop) = [] \<and>
   (\<exists>s'. addInvoiceItem 1 2 2 5 999 sold = (Inr (), s') \<and>
         lines_of 1 s' = lines_of 1 sold @ [(2, 2, 5, 999)]) \<and>
   map line_fields (fd_items (sc_formData (snd (addOrUpdateItem pick_form))))
     = [(1, 3, 1000, 3000), (2, 2, 5, 10)] \<and>
   list_all (\<lambda>l. d_extended_amount l = d_quantity l * d_unit_price l)
     (fd_items (sc_formData (snd (addOrUpdateItem pick_form)))) \<and>
   lines_of (saved_invoice_id sale_form shop) (snd (handleSave ''2024-01-02 12:00:00'' sale_form shop))
     = map line_fields (fd_items (sc_formData sale_form))"
proof -
  have o: "opened sold" by (simp add: sold_def shop_def)
  have a: "\<forall>l \<in> set (fd_items (sc_formData pick_form)). d_extended_amount l = d_quantity l * d_unit_price l"
    by (simp add: pick_form_def sale_form_def laptop_line_def)
  have ok: "fst (handleSave ''2024-01-02 12:00:00'' sale_form shop) = ShowSuccess ''Invoice created successfully''"
    by (simp add: sale_form_saved)
  have cr: "\<not> is_update sale_form" by (simp add: is_update_def sale_form_def)
  have e: "invoice_items (store shop) = []" by (simp add: shop_def)
  have fresh: "\<not> is_update sale_form \<longrightarrow>
       (\<forall>r \<in> set (invoice_items (store shop)). ii_invoice_id r \<noteq> saved_invoice_id sale_form shop)"
    by (simp add: e)
  have run: "map line_fields (fd_items (sc_formData (snd (addOrUpdateItem pick_form))))
     = [(1, 3, 1000, 3000), (2, 2, 5, 10)]"
    by (simp add: addOrUpdateItem_def pick_form_def sale_form_def shop_def laptop_line_def
        line_fields_def Let_def)
  from extended_amount_stored_as_supplied
         [of sold 1 2 2 5 999 pick_form "''2024-01-02 12:00:00''" sale_form shop
             "''Invoice created successfully''"]
       o a ok fresh
  have "(\<exists>s'. addInvoiceItem 1 2 2 5 999 sold = (Inr (), s') \<and>
         lines_of 1 s' = lines_of 1 sold @ [(2, 2, 5, 999)]) \<and>
     (\<forall>l \<in> set (fd_items (sc_formData (snd (addOrUpdateItem pick_form)))).
       d_extended_amount l = d_quantity l * d_unit_price l) \<and>
     lines_of (saved_invoice_id sale_form shop) (snd (handleSave ''2024-01-02 12:00:00'' sale_form shop))
       = map line_fields (fd_items (sc_formData sale_form))"
    by simp
  with o a ok cr e run show ?thesis by (simp add: list_all_iff)
qed

text \<open>
  Claim C3 as stated fails: a caller that passes quantity 2, unit price 5 and extended
  amount 999 gets a line stored with 999, which is not 2 times 5.
\<close>

theorem store_recomputes_extended_amount_counterexample:
  "fst (getInvoiceItems 1 (snd (addInvoiceItem 1 2 2 5 999 sold))) =
     Inr [\<lparr>ii_id = 1, ii_invoice_id = 1, ii_item_id = 1, ii_quantity = 3, ii_unit_price = 1000,
           ii_extended_amount = 3000\<rparr>,
          \<lparr>ii_id = 2, ii_invoice_id = 1, ii_item_id = 2, ii_quantity = 2, ii_unit_price = 5,
           ii_extended_amount = 999\<rparr>] \<and>
   (999 :: number) \<noteq> 2 * 5"
  by (simp add: getInvoiceItems_def addInvoiceItem_def sold_def shop_def next_rowid_def Let_def)

subsection \<open>Stock after an invoice that names an item twice\<close>

text \<open>
  The form \<open>double_form\<close> is what the line dialog builds when the user adds the
  laptop with quantity 3 and then adds it again with quantity 4.
\<close>

lemma double_form_built_by_dialog:
  "fd_items (sc_formData (snd (addOrUpdateItem
     ((snd (addOrUpdateItem
        (sale_form\<lparr>sc_formData := \<lparr>fd_customer_id = 1, fd_invoice_date = ''2024-01-02'',
                                      fd_items = []\<rparr>,
                    sc_selectedItemId := 1, sc_itemQuantity := Some 3,
                    sc_itemPrice := Some 1000\<rparr>)))
       \<lparr>sc_selectedItemId := 1, sc_itemQuantity := Some 4, sc_itemPrice := Some 1000\<rparr>))))
   = fd_items (sc_formData double_form)"
  by (simp add: addOrUpdateItem_def sale_form_def double_form_def shop_def laptop_line_def Let_def)

text \<open>
  Claim C1 at the form \<open>double_form\<close>. The laptop is in stock 10 times and the invoice
  has two lines for it, of 3 and of 4. The save succeeds and stores both lines, and the
  laptop's quantity afterwards is 6: each line writes the quantity that the screen read
  when it was mounted minus its own quantity, so the second line overwrites what the
  first wrote. Decrementing by each line would leave 3; the line of 3 alone would
  leave 7.
\<close>

theorem duplicate_item_lines_lose_a_decrement:
  "fst (handleSave ''2024-01-02 12:00:00'' double_form shop) = ShowSuccess ''Invoice created successfully'' \<and>
   lines_of 1 (snd (handleSave ''2024-01-02 12:00:00'' double_form shop))
     = [(1, 3, 1000, 3000), (1, 4, 1000, 4000)] \<and>
   map (\<lambda>r. (i_id r, i_quantity r)) (items (store shop)) = [(1, 10), (2, 2)] \<and>
   map (\<lambda>r. (i_id r, i_quantity r)) (items (store (snd (handleSave ''2024-01-02 12:00:00'' double_form shop))))
     = [(1, 6), (2, 2)]"
  by (simp add: handleSave_def save_body_def calculateTotals_def double_form_def sale_form_def
      laptop_line_def shop_def await_def addInvoice_def addInvoiceItem_def updateItemQuantity_def
      next_rowid_def VAT_RATE_def Let_def lines_of_def row_fields_def)

subsection \<open>Invoice numbers\<close>

lemma digit_cases: "d < 10 \<Longrightarrow> d = 0 \<or> d = 1 \<or> d = 2 \<or> d = 3 \<or> d = 4 \<or> d = 5 \<or> d = 6 \<or> d = 7 \<or> d = 8 \<or> d = (9::nat)"
  by arith

lemma digit_value_digit_char: "d < 10 \<Longrightarrow> digit_value (digit_char d) = d"
  using digit_cases [of d] by (auto simp: digit_value_def digit_char_def)

lemma digit_char_in: "d < 10 \<Longrightarrow> is_digit (digit_char d)"
  using digit_cases [of d] by (auto simp: digit_char_def is_digit_def)

lemma digit_char_zero: "d < 10 \<Longrightarrow> digit_char d = CHR ''0'' \<longleftrightarrow> d = 0"
  using digit_cases [of d] by (auto simp: digit_char_def)


lemma dec_value_snoc: "dec_value (ds @ [c]) = 10 * dec_value ds + digit_value c"
  by (simp add: dec_value_def)

lemma dec_value_zeros: "dec_value (replicate m (CHR ''0'') @ ds) = dec_value ds"
proof -
  have "foldl (\<lambda>a c. 10 * a + digit_value c) 0 (replicate m (CHR ''0'')) = 0"
    by (induction m) (simp_all add: digit_value_def)
  then show ?thesis by (simp add: dec_value_def)
qed

lemma String_of_props:
  "String_of n \<noteq> [] \<and> dec_value (String_of n) = n \<and>
   list_all is_digit (String_of n) \<and>
   (0 < n \<longrightarrow> hd (String_of n) \<noteq> CHR ''0'')"
proof (induction n rule: String_of.induct)
  case (1 n)
  show ?case
  proof (cases "n < 10")
    case True
    then have s: "String_of n = [digit_char n]" by (simp add: String_of.simps)
    show ?thesis unfolding s
      using True digit_value_digit_char [OF True] digit_char_in [OF True] digit_char_zero [OF True]
      by (simp add: dec_value_def)
  next
    case False
    then have s: "String_of n = String_of (n div 10) @ [digit_char (n mod 10)]"
      by (subst String_of.simps) simp
    have m: "n mod 10 < 10" by simp
    have pos: "0 < n div 10" using False by simp
    from "1.IH" [OF False] pos
    have ih: "String_of (n div 10) \<noteq> []" "dec_value (String_of (n div 10)) = n div 10"
      "list_all is_digit (String_of (n div 10))"
      "hd (String_of (n div 10)) \<noteq> CHR ''0''" by simp_all
    have v: "dec_value (String_of n) = n"
      unfolding s dec_value_snoc ih(2) digit_value_digit_char [OF m] by simp
    have d: "list_all is_digit (String_of n)"
      unfolding s using ih(3) digit_char_in [OF m] by simp
    have h: "hd (String_of n) \<noteq> CHR ''0''"
      unfolding s using ih(1) ih(4) by simp
    show ?thesis using v d h unfolding s by simp
  qed
qed

lemma zero_padded_padStart:
  assumes "0 < n"
  shows "zero_padded w n (padStart w (CHR ''0'') (String_of n))"
proof (cases "w \<le> length (String_of n)")
  case True
  then have p: "padStart w (CHR ''0'') (String_of n) = String_of n" by (simp add: padStart_def)
  show ?thesis unfolding p zero_padded_def using String_of_props [of n] assms True by simp
next
  case False
  then have len: "length (padStart w (CHR ''0'') (String_of n)) = w" by (simp add: padStart_def)
  have v: "dec_value (padStart w (CHR ''0'') (String_of n)) = n"
    unfolding padStart_def dec_value_zeros using String_of_props [of n] by simp
  have z: "is_digit (CHR ''0'')" by (simp add: is_digit_def)
  have "list_all is_digit (replicate (w - length (String_of n)) (CHR ''0''))"
    using z by (induction "w - length (String_of n)" arbitrary: w) (simp_all add: list_all_iff)
  then have d: "list_all is_digit (padStart w (CHR ''0'') (String_of n))"
    unfolding padStart_def using String_of_props [of n] by simp
  show ?thesis unfolding zero_padded_def using len v d by simp
qed

lemma generate_number_is:
  assumes "opened s"
  shows "\<exists>str. generateInvoiceNumber s = (Inr str, s) \<and>
               number_is (length (invoices (store s)) + 1) str"
  using assms zero_padded_padStart [of "length (invoices (store s)) + 1" 6]
  by (simp add: generateInvoiceNumber_def Let_def number_is_def)

lemma number_is_functional: "number_is a str \<Longrightarrow> number_is b str \<Longrightarrow> a = b"
  by (simp add: number_is_def zero_padded_def)


lemma create_run_numbers:
  assumes "opened s"
    and "\<forall>n < length (invoices (store s)).
           number_is (n + 1) (inv_invoice_number (invoices (store s) ! n))"
    and "\<forall>f \<in> set forms. \<not> is_update (snd f) \<and> fd_customer_id (sc_formData (snd f)) \<noteq> 0 \<and>
           fd_items (sc_formData (snd f)) \<noteq> []"
  shows "opened (create_run forms s) \<and>
         length (invoices (store (create_run forms s))) = length (invoices (store s)) + length forms \<and>
         (\<forall>n < length (invoices (store s)) + length forms.
            number_is (n + 1) (inv_invoice_number (invoices (store (create_run forms s)) ! n)))"
  using assms
proof (induction forms arbitrary: s)
  case Nil
  then show ?case by simp
next
  case (Cons f rest)
  obtain now sc where f: "f = (now, sc)" by (cases f)
  let ?k = "length (invoices (store s))"
  from generate_number_is [OF Cons.prems(1)] obtain str where
    g: "generateInvoiceNumber s = (Inr str, s)" "number_is (?k + 1) str" by blast
  let ?sc = "sc\<lparr>sc_invoiceNumber := str\<rparr>"
  have sg: "screen_generateInvoiceNumber sc s = (?sc, s)"
    by (simp add: screen_generateInvoiceNumber_def g(1))
  from Cons.prems(3) f have v: "\<not> is_update ?sc" "fd_customer_id (sc_formData ?sc) \<noteq> 0"
    "fd_items (sc_formData ?sc) \<noteq> []" by (simp_all add: is_update_def)
  have u: "sc_invoiceNumber ?sc \<notin> set (map inv_invoice_number (invoices (store s)))"
  proof
    assume "sc_invoiceNumber ?sc \<in> set (map inv_invoice_number (invoices (store s)))"
    then obtain n where n: "n < ?k" "inv_invoice_number (invoices (store s) ! n) = str"
      by (auto simp: in_set_conv_nth)
    with Cons.prems(2) have "number_is (n + 1) str" by auto
    from number_is_functional [OF this g(2)] n(1) show False by simp
  qed
  from create_forward [OF Cons.prems(1) v(1) v(2) v(3) u, of now]
  obtain s' row where c: "handleSave now ?sc s = (ShowSuccess ''Invoice created successfully'', s')"
    "opened s'" "invoices (store s') = invoices (store s) @ [row]"
    "inv_invoice_number row = sc_invoiceNumber ?sc" by blast
  have run: "create_run (f # rest) s = create_run rest s'"
    by (simp add: f sg c(1))
  have len: "length (invoices (store s')) = ?k + 1" by (simp add: c(3))
  have inv': "\<forall>n < length (invoices (store s')).
           number_is (n + 1) (inv_invoice_number (invoices (store s') ! n))"
  proof (intro allI impI)
    fix n assume "n < length (invoices (store s'))"
    then have "n < ?k \<or> n = ?k" using len by arith
    then show "number_is (n + 1) (inv_invoice_number (invoices (store s') ! n))"
    proof
      assume "n < ?k"
      then show ?thesis using Cons.prems(2) by (simp add: c(3) nth_append)
    next
      assume "n = ?k"
      then show ?thesis using g(2) c(4) by (simp add: c(3) nth_append)
    qed
  qed
  from Cons.prems(3) have rest: "\<forall>f \<in> set rest. \<not> is_update (snd f) \<and>
        fd_customer_id (sc_formData (snd f)) \<noteq> 0 \<and> fd_items (sc_formData (snd f)) \<noteq> []"
    by simp
  from Cons.IH [OF c(2) inv' rest] show ?case unfolding run len by simp
qed


lemma shop_with_count: "opened (shop_with n) \<and> length (invoices (store (shop_with n))) = n"
  by (simp add: shop_with_def shop_def)

lemma pad_digit:
  "padStart 6 (CHR ''0'') [c] = [CHR ''0'', CHR ''0'', CHR ''0'', CHR ''0'', CHR ''0'', c]"
  by (simp add: padStart_def eval_nat_numeral)

lemma String_of_1: "String_of (Suc 0) = ''1''"
  by (simp add: String_of.simps digit_char_def)

lemma String_of_2: "String_of (Suc (Suc 0)) = ''2''"
  by (simp add: String_of.simps digit_char_def)

lemma pad_42: "padStart 6 (CHR ''0'') (String_of 42) = ''000042''"
proof -
  have "String_of 42 = ''42''" by (simp add: String_of.simps digit_char_def)
  moreover have "replicate 4 (CHR ''0'') = ''0000''" by (simp add: eval_nat_numeral)
  ultimately show ?thesis by (simp add: padStart_def)
qed

text \<open>
  Claim C4. On an initialised store with \<open>k\<close> invoice rows \<^verbatim>\<open>generateInvoiceNumber\<close>
  returns, without changing the state, the text \<^verbatim>\<open>INV-\<close> followed by \<open>k + 1\<close>
  zero-padded to six digits. Hence, with no invoice on record at the start, a run of
  creations whose forms pass the form checks (a customer chosen, at least one line)
  creates one invoice per form, and the \<open>n\<close>-th invoice created carries \<^verbatim>\<open>INV-\<close>
  followed by \<open>n\<close> zero-padded to six digits.
\<close>

theorem invoice_numbers_count_up:
  "(opened s \<longrightarrow>
      (\<exists>str. generateInvoiceNumber s = (Inr str, s) \<and>
             number_is (length (invoices (store s)) + 1) str)) \<and>
   (opened s \<and> invoices (store s) = [] \<and>
    (\<forall>f \<in> set forms. \<not> is_update (snd f) \<and> fd_customer_id (sc_formData (snd f)) \<noteq> 0 \<and>
        fd_items (sc_formData (snd f)) \<noteq> []) \<longrightarrow>
      length (invoices (store (create_run forms s))) = length forms \<and>
      (\<forall>n < length forms.
         number_is (n + 1) (inv_invoice_number (invoices (store (create_run forms s)) ! n))))"
proof -
  have first: "opened s \<longrightarrow>
      (\<exists>str. generateInvoiceNumber s = (Inr str, s) \<and>
             number_is (length (invoices (store s)) + 1) str)"
    using generate_number_is [of s] by blast
  have second: "length (invoices (store (create_run forms s))) = length forms \<and>
      (\<forall>n < length forms.
         number_is (n + 1) (inv_invoice_number (invoices (store (create_run forms s)) ! n)))"
    if a: "opened s \<and> invoices (store s) = [] \<and>
      (\<forall>f \<in> set forms. \<not> is_update (snd f) \<and> fd_customer_id (sc_formData (snd f)) \<noteq> 0 \<and>
        fd_items (sc_formData (snd f)) \<noteq> [])"
  proof -
    from a have o: "opened s" and e: "invoices (store s) = []"
      and v: "\<forall>f \<in> set forms. \<not> is_update (snd f) \<and> fd_customer_id (sc_formData (snd f)) \<noteq> 0 \<and>
        fd_items (sc_formData (snd f)) \<noteq> []" by simp_all
    have i: "\<forall>n < length (invoices (store s)).
           number_is (n + 1) (inv_invoice_number (invoices (store s) ! n))"
      by (simp add: e)
    from create_run_numbers [OF o i v] show ?thesis by (simp add: e)
  qed
  from first second show ?thesis by blast
qed

theorem invoice_numbers_count_up_witness:
  "opened (shop_with 41) \<and> length (invoices (store (shop_with 41))) = 41 \<and>
   generateInvoiceNumber (shop_with 41) = (Inr ''INV-000042'', shop_with 41) \<and>
   number_is 42 ''INV-000042'' \<and>
   opened shop \<and> invoices (store shop) = [] \<and>
   generateInvoiceNumber shop = (Inr ''INV-000001'', shop) \<and>
   list_all (\<lambda>f. \<not> is_update (snd f) \<and> fd_customer_id (sc_formData (snd f)) \<noteq> 0 \<and>
               fd_items (sc_formData (snd f)) \<noteq> [])
     [(''2024-01-02 12:00:00'', sale_form), (''2024-01-03 12:00:00'', double_form)] \<and>
   map inv_invoice_number (invoices (store (create_run
      [(''2024-01-02 12:00:00'', sale_form), (''2024-01-03 12:00:00'', double_form)] shop)))
     = [''INV-000001'', ''INV-000002''] \<and>
   number_is 1 ''INV-000001'' \<and> number_is 2 ''INV-000002''"
proof -
  let ?forms = "[(''2024-01-02 12:00:00'', sale_form), (''2024-01-03 12:00:00'', double_form)]"
  have c41: "opened (shop_with 41)" "length (invoices (store (shop_with 41))) = 41"
    using shop_with_count [of 41] by simp_all
  have g41: "generateInvoiceNumber (shop_with 41) = (Inr ''INV-000042'', shop_with 41)"
    using c41 by (simp add: generateInvoiceNumber_def Let_def pad_42)
  have o: "opened shop" and e: "invoices (store shop) = []" by (simp_all add: shop_def)
  have g1: "generateInvoiceNumber shop = (Inr ''INV-000001'', shop)"
    by (simp add: generateInvoiceNumber_def shop_def Let_def String_of_1 pad_digit)
  have v: "\<forall>f \<in> set ?forms. \<not> is_update (snd f) \<and> fd_customer_id (sc_formData (snd f)) \<noteq> 0 \<and>
      fd_items (sc_formData (snd f)) \<noteq> []"
    by (simp add: is_update_def sale_form_def double_form_def)
  have run: "map inv_invoice_number (invoices (store (create_run ?forms shop)))
     = [''INV-000001'', ''INV-000002'']"
    by (simp add: screen_generateInvoiceNumber_def generateInvoiceNumber_def
      handleSave_def save_body_def calculateTotals_def double_form_def sale_form_def
      laptop_line_def shop_def await_def addInvoice_def addInvoiceItem_def updateItemQuantity_def
      next_rowid_def VAT_RATE_def Let_def String_of_1 String_of_2 pad_digit)
  have len: "length (invoices (store (create_run ?forms shop))) = 2"
    using arg_cong [OF run, of length] by simp
  have nth0: "inv_invoice_number (invoices (store (create_run ?forms shop)) ! 0) = ''INV-000001''"
    and nth1: "inv_invoice_number (invoices (store (create_run ?forms shop)) ! 1) = ''INV-000002''"
    using arg_cong [OF run, of "\<lambda>xs. xs ! 0"] arg_cong [OF run, of "\<lambda>xs. xs ! 1"] len
    by simp_all
  from invoice_numbers_count_up [of "shop_with 41" "[]"] c41 g41
  have n42: "number_is 42 ''INV-000042''" by simp
  from invoice_numbers_count_up [of shop ?forms] o e v
  have "\<forall>n < 2. number_is (n + 1) (inv_invoice_number (invoices (store (create_run ?forms shop)) ! n))"
    by simp
  then have "number_is (0 + 1) (inv_invoice_number (invoices (store (create_run ?forms shop)) ! 0))"
    and "number_is (1 + 1) (inv_invoice_number (invoices (store (create_run ?forms shop)) ! 1))"
    by simp_all
  then have n1: "number_is 1 ''INV-000001''" and n2: "number_is 2 ''INV-000002''"
    unfolding nth0 nth1 by (simp_all add: numeral_2_eq_2)
  from v have v': "list_all (\<lambda>f. \<not> is_update (snd f) \<and> fd_customer_id (sc_formData (snd f)) \<noteq> 0 \<and>
               fd_items (sc_formData (snd f)) \<noteq> []) ?forms"
    unfolding list_all_iff .
  from c41 g41 n42 o e g1 v' run n1 n2 show ?thesis by blast
qed

end
